theory Spec2Isabelle
  imports Main "HOL-Library.AList" "HOL-Library.Multiset" "HOL-Library.Sublist" "HOL-Library.Word"
begin

unbundle bit_operations_syntax

section \<open>JavaScript values\<close>

text \<open>
  The values the session store and the classifier handle. Numbers are the integers the
  code computes with (epoch milliseconds, counters) and \<open>NaN\<close>; an object is the list of
  its own properties in insertion order.
\<close>

datatype jsval =
    JUndefined
  | JNull
  | JBool bool
  | JNum int
  | JNaN
  | JStr string
  | JArr "jsval list"
  | JObj "(string \<times> jsval) list"

text \<open>ToBoolean: what \<open>if (v)\<close>, \<open>v || w\<close> and \<open>v && w\<close> test.\<close>

fun truthy :: "jsval \<Rightarrow> bool" where
  "truthy JUndefined = False"
| "truthy JNull = False"
| "truthy (JBool b) = b"
| "truthy (JNum n) = (n \<noteq> 0)"
| "truthy JNaN = False"
| "truthy (JStr s) = (s \<noteq> [])"
| "truthy (JArr xs) = True"
| "truthy (JObj ps) = True"

text \<open>\<open>a || b\<close> on values.\<close>

definition js_or :: "jsval \<Rightarrow> jsval \<Rightarrow> jsval" where
  "js_or a b = (if truthy a then a else b)"

text \<open>\<open>o[k]\<close> for an object \<open>o\<close>: the own property, or \<open>undefined\<close>.\<close>

definition own_prop :: "(string \<times> jsval) list \<Rightarrow> string \<Rightarrow> jsval" where
  "own_prop ps k = (case map_of ps k of None \<Rightarrow> JUndefined | Some v \<Rightarrow> v)"

text \<open>
  \<open>v.cookies\<close>, \<open>v.metadata\<close> and the other data members read below, on any value:
  reading a member of \<open>null\<close> or \<open>undefined\<close> throws a TypeError (\<open>None\<close>); an array or a
  primitive has no such member.
\<close>

fun member_of :: "jsval \<Rightarrow> string \<Rightarrow> jsval option" where
  "member_of JUndefined k = None"
| "member_of JNull k = None"
| "member_of (JObj ps) k = Some (own_prop ps k)"
| "member_of v k = Some JUndefined"



section \<open>Session store (HttpSession)\<close>

subsection \<open>The metadata object\<close>

text \<open>
  \<open>_metadata\<close> is an ordinary object, used as a map from keys to values: it is given by
  the list of its own properties and by its prototype. An object made by \<open>{}\<close> or by
  \<open>JSON.parse\<close> inherits from \<open>Object.prototype\<close>; the prototype changes only when an
  assignment to \<open>__proto__\<close> reaches the accessor of \<open>Object.prototype\<close>, which takes
  \<open>null\<close> or an object and ignores every other value.
\<close>

datatype prototype =
    ObjectPrototype
  | NullPrototype
  | ValuePrototype jsval

text \<open>
  What a name denotes on a prototype chain: nothing, a data property with its value, a
  data property that holds a built-in function (named by its path), or the accessor
  \<open>__proto__\<close>.
\<close>

datatype property =
    Absent
  | Data jsval
  | BuiltinFunction string
  | ProtoAccessor

text \<open>The names that \<open>Object.prototype\<close> and \<open>Array.prototype\<close> define (ECMAScript 2023).\<close>

definition object_prototype_names :: "string list" where
  "object_prototype_names =
     [''constructor'', ''hasOwnProperty'', ''isPrototypeOf'', ''propertyIsEnumerable'',
      ''toLocaleString'', ''toString'', ''valueOf'', ''__defineGetter__'', ''__defineSetter__'',
      ''__lookupGetter__'', ''__lookupSetter__'']"

definition array_prototype_names :: "string list" where
  "array_prototype_names =
     [''at'', ''concat'', ''constructor'', ''copyWithin'', ''entries'', ''every'', ''fill'',
      ''filter'', ''find'', ''findIndex'', ''findLast'', ''findLastIndex'', ''flat'', ''flatMap'',
      ''forEach'', ''includes'', ''indexOf'', ''join'', ''keys'', ''lastIndexOf'', ''map'', ''pop'',
      ''push'', ''reduce'', ''reduceRight'', ''reverse'', ''shift'', ''slice'', ''some'', ''sort'',
      ''splice'', ''toLocaleString'', ''toReversed'', ''toSorted'', ''toSpliced'', ''toString'',
      ''unshift'', ''values'', ''with'']"

definition object_prototype_property :: "string \<Rightarrow> property" where
  "object_prototype_property k =
     (if k = ''__proto__'' then ProtoAccessor
      else if k \<in> set object_prototype_names then BuiltinFunction (''Object.prototype.'' @ k)
      else Absent)"

definition array_prototype_property :: "string \<Rightarrow> property" where
  "array_prototype_property k =
     (if k \<in> set array_prototype_names then BuiltinFunction (''Array.prototype.'' @ k)
      else object_prototype_property k)"

text \<open>
  The index that a key denotes on an array: the key is the decimal numeral of the index,
  without leading zeros.
\<close>

definition digit_of :: "char \<Rightarrow> nat option" where
  "digit_of ch =
     map_of [(CHR ''0'', 0), (CHR ''1'', 1), (CHR ''2'', 2), (CHR ''3'', 3), (CHR ''4'', 4),
             (CHR ''5'', 5), (CHR ''6'', 6), (CHR ''7'', 7), (CHR ''8'', 8), (CHR ''9'', 9)] ch"

fun index_value :: "nat \<Rightarrow> string \<Rightarrow> nat option" where
  "index_value acc [] = Some acc"
| "index_value acc (ch # cs) =
     (case digit_of ch of None \<Rightarrow> None | Some d \<Rightarrow> index_value (10 * acc + d) cs)"

definition array_index :: "string \<Rightarrow> nat option" where
  "array_index k =
     (if k = [] \<or> (hd k = CHR ''0'' \<and> tl k \<noteq> []) then None else index_value 0 k)"

text \<open>
  The property that a key denotes on a value taken as a prototype, through the value's
  own chain: a plain object inherits from \<open>Object.prototype\<close>, an array has its elements
  and its \<open>length\<close> and inherits from \<open>Array.prototype\<close>.
\<close>

fun value_property :: "jsval \<Rightarrow> string \<Rightarrow> property" where
  "value_property (JObj ps) k =
     (case map_of ps k of Some v \<Rightarrow> Data v | None \<Rightarrow> object_prototype_property k)"
| "value_property (JArr xs) k =
     (if k = ''length'' then Data (JNum (int (length xs)))
      else (case array_index k of
              None \<Rightarrow> array_prototype_property k
            | Some i \<Rightarrow> if i < length xs then Data (xs ! i) else array_prototype_property k))"
| "value_property v k = Absent"

definition inherited :: "prototype \<Rightarrow> string \<Rightarrow> property" where
  "inherited p k =
     (case p of
        ObjectPrototype \<Rightarrow> object_prototype_property k
      | NullPrototype \<Rightarrow> Absent
      | ValuePrototype v \<Rightarrow> value_property v k)"

text \<open>
  \<open>o[key] = v\<close> on an object with the own properties \<open>ps\<close> and the prototype \<open>p\<close>: the
  own property is written or created, unless the key is not an own property and reaches
  the accessor \<open>__proto__\<close>, whose setter replaces the prototype.
\<close>

definition put_property ::
  "string \<Rightarrow> jsval \<Rightarrow> (string \<times> jsval) list \<times> prototype \<Rightarrow> (string \<times> jsval) list \<times> prototype" where
  "put_property key v obj =
     (case obj of
        (ps, p) \<Rightarrow>
          if map_of ps key = None \<and> inherited p key = ProtoAccessor
          then (case v of
                  JNull \<Rightarrow> (ps, NullPrototype)
                | JObj x \<Rightarrow> (ps, ValuePrototype v)
                | JArr x \<Rightarrow> (ps, ValuePrototype v)
                | _ \<Rightarrow> (ps, p))
          else (AList.update key v ps, p))"

text \<open>
  What reading a property yields: a value, or one of the engine's own objects (a built-in
  function such as \<open>Object.prototype.toString\<close>, or \<open>Object.prototype\<close> itself), named by
  its path.
\<close>

datatype reading =
    Value jsval
  | Builtin string

text \<open>\<open>o[key]\<close>: the own property, else what the chain gives; the getter of \<open>__proto__\<close>
  returns the prototype.\<close>

definition get_property :: "(string \<times> jsval) list \<Rightarrow> prototype \<Rightarrow> string \<Rightarrow> reading" where
  "get_property ps p key =
     (case map_of ps key of
        Some v \<Rightarrow> Value v
      | None \<Rightarrow>
          (case inherited p key of
             Absent \<Rightarrow> Value JUndefined
           | Data v \<Rightarrow> Value v
           | BuiltinFunction n \<Rightarrow> Builtin n
           | ProtoAccessor \<Rightarrow>
               (case p of ValuePrototype v \<Rightarrow> Value v | _ \<Rightarrow> Builtin ''Object.prototype'')))"

text \<open>\<open>x || null\<close>: an object of the engine is truthy.\<close>

definition or_null :: "reading \<Rightarrow> reading" where
  "or_null x = (case x of Value v \<Rightarrow> Value (js_or v JNull) | Builtin n \<Rightarrow> Builtin n)"

subsection \<open>The store\<close>

text \<open>
  \<open>HttpSession\<close> keeps a cookie jar and, on the jar, the metadata object \<open>_metadata\<close>:
  \<open>metadata\<close> holds its own properties (\<open>None\<close> while the slot is unset) and \<open>proto\<close> its
  prototype. The jar is a parameter: its type and its serialisation belong to the cookie
  library.
\<close>

record 'jar HttpSession =
  jar :: 'jar
  metadata :: "(string \<times> jsval) list option"
  proto :: prototype

definition setMetadata :: "string \<Rightarrow> jsval \<Rightarrow> 'jar HttpSession \<Rightarrow> 'jar HttpSession" where
  "setMetadata key v s =
     (let obj = (case metadata s of None \<Rightarrow> ([], ObjectPrototype) | Some ps \<Rightarrow> (ps, proto s))
      in (case put_property key v obj of
            (ps', p') \<Rightarrow> s\<lparr>metadata := Some ps', proto := p'\<rparr>))"

definition getMetadata :: "string \<Rightarrow> 'jar HttpSession \<Rightarrow> reading" where
  "getMetadata key s =
     or_null (case metadata s of
                None \<Rightarrow> Value JUndefined
              | Some ps \<Rightarrow> get_property ps (proto s) key)"

text \<open>
  \<open>this.jar._metadata && key in this.jar._metadata\<close>: the unset slot itself, or whether
  the key is an own or an inherited property.
\<close>

definition hasMetadata :: "string \<Rightarrow> 'jar HttpSession \<Rightarrow> jsval" where
  "hasMetadata key s =
     (case metadata s of
        None \<Rightarrow> JUndefined
      | Some ps \<Rightarrow> JBool (map_of ps key \<noteq> None \<or> inherited (proto s) key \<noteq> Absent))"

definition removeMetadata :: "string \<Rightarrow> 'jar HttpSession \<Rightarrow> 'jar HttpSession" where
  "removeMetadata key s =
     (case metadata s of None \<Rightarrow> s | Some ps \<Rightarrow> s\<lparr>metadata := Some (AList.delete key ps)\<rparr>)"

text \<open>\<open>getAllMetadata\<close>: the object, by its own properties.\<close>

definition getAllMetadata :: "'jar HttpSession \<Rightarrow> (string \<times> jsval) list" where
  "getAllMetadata s = (case metadata s of None \<Rightarrow> [] | Some ps \<Rightarrow> ps)"

subsection \<open>Export and import\<close>


text \<open>
  \<open>importCookieJar\<close> returns the new jar with the value assigned to its \<open>_metadata\<close>, or
  \<open>None\<close> for the \<open>null\<close> of the catch block. \<open>fromJSON\<close> is \<open>CookieJar.fromJSON\<close>, \<open>None\<close>
  when it throws.
\<close>

definition importCookieJar ::
  "(jsval \<Rightarrow> 'jar option) \<Rightarrow> jsval option \<Rightarrow> ('jar \<times> jsval) option" where
  "importCookieJar fromJSON cookieJarString =
     (case cookieJarString of
        None \<Rightarrow> None
      | Some d \<Rightarrow>
          (case (member_of d ''cookies'', member_of d ''metadata'') of
             (Some c, Some m) \<Rightarrow>
               (let (cookieData, md) =
                      (if truthy c \<and> truthy m then (c, m) else (d, JObj []))
                in (case fromJSON cookieData of
                      None \<Rightarrow> None
                    | Some j \<Rightarrow> Some (j, md)))
           | _ \<Rightarrow> None))"

text \<open>
  A model of the cookie library's serialisation for concrete instances: a jar is the list
  of its serialised cookies, \<open>toJSON\<close> wraps them with the store's header fields, and
  \<open>fromJSON\<close> throws unless the \<open>cookies\<close> member is an array.
\<close>

definition jar_toJSON :: "jsval list \<Rightarrow> (string \<times> jsval) list" where
  "jar_toJSON cs =
     [(''version'', JStr ''tough-cookie@4.1.3''),
      (''storeType'', JStr ''MemoryCookieStore''),
      (''rejectPublicSuffixes'', JBool True),
      (''cookies'', JArr cs)]"

definition jar_fromJSON :: "jsval \<Rightarrow> jsval list option" where
  "jar_fromJSON v =
     (case member_of v ''cookies'' of
        Some (JArr cs) \<Rightarrow> Some cs
      | _ \<Rightarrow> None)"

section \<open>Response classifier (ResponseAnalyzer)\<close>

datatype js_error =
    TypeError
  | AuthError string string
  | Error string
  | RequestFailed

datatype AuthState =
    KMSI_PAGE_OK
  | INITIAL_PAGE_OK
  | INVALID_CREDENTIALS
  | ACCOUNT_LOCKED
  | REAUTH_NEEDED
  | UNKNOWN_STATE
  | PASSKEY_INTERRUPT
  | PRIVACY_NOTICE
  | AUTO_SUBMIT_FORM_DETECTED
  | MANUAL_REDIRECT_DETECTED
  | NEED_TO_ADD_ALT
  | MICROSOFT_HOME_PAGE
  | MICROSOFT_UPDATE_TERM

text \<open>\<open>s.includes(p)\<close> on strings.\<close>

fun includes_str :: "string \<Rightarrow> string \<Rightarrow> bool" where
  "includes_str [] p = (p = [])"
| "includes_str (c # cs) p = (prefix p (c # cs) \<or> includes_str cs p)"

text \<open>
  A response as the analyzer sees it: the status, the \<open>Location\<close> header and the body,
  together with what the constructor and the selectors read off the body: the parsed
  \<open>ServerData\<close> object (\<open>None\<close> when \<open>extractServerData\<close> returns \<open>null\<close>), the form
  \<open>form#fmHF\<close> (\<open>None\<close> when no element matches, else its \<open>action\<close> attribute, if any)
  and the text of the \<open>title\<close> element.
\<close>

record response =
  status :: int
  location :: "string option"
  html :: string
  serverData :: "(string \<times> jsval) list option"
  fmHF :: "string option option"
  title :: string

text \<open>\<open>serverData?.name\<close>.\<close>

definition sd :: "response \<Rightarrow> string \<Rightarrow> jsval" where
  "sd r name = (case serverData r of None \<Rightarrow> JUndefined | Some ps \<Rightarrow> own_prop ps name)"

text \<open>
  \<open>v?.includes(p)\<close>: \<open>undefined\<close> (falsy) on \<open>null\<close> and \<open>undefined\<close>, the substring test
  on a string, membership on an array, and a TypeError on any other value, which has no
  method \<open>includes\<close>.
\<close>

fun opt_includes :: "jsval \<Rightarrow> string \<Rightarrow> js_error + bool" where
  "opt_includes JUndefined p = Inr False"
| "opt_includes JNull p = Inr False"
| "opt_includes (JStr s) p = Inr (includes_str s p)"
| "opt_includes (JArr xs) p = Inr (JStr p \<in> set xs)"
| "opt_includes v p = Inl TypeError"

definition getAuthState :: "response \<Rightarrow> js_error + AuthState" where
  "getAuthState r =
     (case (if status r = 302
            then (case location r of
                    None \<Rightarrow> Inl TypeError
                  | Some l \<Rightarrow> Inr (includes_str l ''account.live.com''))
            else Inr False) of
        Inl e \<Rightarrow> Inl e
      | Inr True \<Rightarrow> Inr MICROSOFT_HOME_PAGE
      | Inr False \<Rightarrow>
     (case opt_includes (sd r ''sErrTxt'') ''incorrect'' of
        Inl e \<Rightarrow> Inl e
      | Inr True \<Rightarrow> Inr INVALID_CREDENTIALS
      | Inr False \<Rightarrow>
     Inr (if includes_str (html r) ''/Abuse'' then ACCOUNT_LOCKED
     else if includes_str (html r) ''identity/confirm'' then REAUTH_NEEDED
     else if includes_str (html r) ''interrupt/passkey'' then PASSKEY_INTERRUPT
     else if includes_str (html r) ''proofs/Add'' then NEED_TO_ADD_ALT
     else if includes_str (html r) ''/tou/accrue'' then MICROSOFT_UPDATE_TERM
     else if (case fmHF r of
                None \<Rightarrow> False
              | Some None \<Rightarrow> False
              | Some (Some a) \<Rightarrow> includes_str a ''privacynotice.account.microsoft.com'')
          then PRIVACY_NOTICE
     else if truthy (sd r ''sSigninName'') then KMSI_PAGE_OK
     else if truthy (sd r ''sFTTag'') then INITIAL_PAGE_OK
     else if includes_str (title r) ''Microsoft account | Home'' then MICROSOFT_HOME_PAGE
     else UNKNOWN_STATE)))"

subsection \<open>The precedence list of the specification\<close>

text \<open>
  The page-state markers, each a predicate on the response, and the list of the
  specification: the markers in their order, each with its state. The first marker takes
  the set of statuses that count as a redirect.
\<close>

definition redirect_to_home :: "(int \<Rightarrow> bool) \<Rightarrow> response \<Rightarrow> bool" where
  "redirect_to_home is_redirect r =
     (is_redirect (status r) \<and>
      (case location r of None \<Rightarrow> False | Some l \<Rightarrow> includes_str l ''account.live.com''))"

definition error_text_incorrect :: "response \<Rightarrow> bool" where
  "error_text_incorrect r = (opt_includes (sd r ''sErrTxt'') ''incorrect'' = Inr True)"

definition privacy_notice_form :: "response \<Rightarrow> bool" where
  "privacy_notice_form r =
     (case fmHF r of
        Some (Some a) \<Rightarrow> includes_str a ''privacynotice.account.microsoft.com''
      | _ \<Rightarrow> False)"

definition precedence :: "(int \<Rightarrow> bool) \<Rightarrow> ((response \<Rightarrow> bool) \<times> AuthState) list" where
  "precedence is_redirect =
     [(redirect_to_home is_redirect, MICROSOFT_HOME_PAGE),
      (error_text_incorrect, INVALID_CREDENTIALS),
      (\<lambda>r. includes_str (html r) ''/Abuse'', ACCOUNT_LOCKED),
      (\<lambda>r. includes_str (html r) ''identity/confirm'', REAUTH_NEEDED),
      (\<lambda>r. includes_str (html r) ''interrupt/passkey'', PASSKEY_INTERRUPT),
      (\<lambda>r. includes_str (html r) ''proofs/Add'', NEED_TO_ADD_ALT),
      (\<lambda>r. includes_str (html r) ''/tou/accrue'', MICROSOFT_UPDATE_TERM),
      (privacy_notice_form, PRIVACY_NOTICE),
      (\<lambda>r. truthy (sd r ''sSigninName''), KMSI_PAGE_OK),
      (\<lambda>r. truthy (sd r ''sFTTag''), INITIAL_PAGE_OK),
      (\<lambda>r. includes_str (title r) ''Microsoft account | Home'', MICROSOFT_HOME_PAGE)]"

text \<open>The state of the first marker of a list that holds, \<open>unknown\<close> when none does.\<close>

fun first_match :: "((response \<Rightarrow> bool) \<times> AuthState) list \<Rightarrow> response \<Rightarrow> AuthState" where
  "first_match [] r = UNKNOWN_STATE"
| "first_match ((p, s) # ms) r = (if p r then s else first_match ms r)"

text \<open>The responses on which \<open>getAuthState\<close> throws instead of returning a state.\<close>

definition classifier_throws :: "response \<Rightarrow> bool" where
  "classifier_throws r =
     ((status r = 302 \<and> location r = None) \<or>
      (\<not> redirect_to_home (\<lambda>n. n = 302) r \<and>
       isl (opt_includes (sd r ''sErrTxt'') ''incorrect'')))"

section \<open>Credential flow (MicrosoftAuth)\<close>

subsection \<open>The environment of a login attempt\<close>

text \<open>
  An HTTP call is \<open>GET url\<close> or \<open>POST url fields\<close>; a URL is a value, since the code
  passes on what it read (\<open>null\<close> and \<open>undefined\<close> included).
\<close>

datatype request =
    GET jsval
  | POST jsval "(string \<times> string) list"

text \<open>What \<open>analyzeRedirect\<close> returns: the next action with its target and form fields.\<close>

datatype redirect_type =
    HTTP_REDIRECT
  | MANUAL_REDIRECT
  | MSAL_REDIRECT
  | AUTO_SUBMIT
  | ENTER_PASSWORD
  | FINAL_PAGE
  | UNKNOWN

record analysis =
  rtype :: redirect_type
  url :: jsval
  payload :: "(string \<times> string) list"

record credentials =
  email :: string
  password :: string

text \<open>What a token acquisition stores: the token set, the mailbox id and the expiry.\<close>

record outlook_tokens =
  apiTokens :: jsval
  mailboxValue :: jsval
  outlookTokensExpiry :: jsval

text \<open>
  The state of an attempt. \<open>requests\<close> is what the network has seen of it: the HTTP calls
  made so far, in their order; \<open>analysed\<close> is what the redirect handlers have seen: the
  responses handed to \<open>analyzeRedirect\<close>, in their order. \<open>reentries\<close> counts the silent
  re-entries into the login endpoint. The other fields are those of \<open>MicrosoftAuth\<close> and
  its session.
\<close>

record flow =
  requests :: "request list"
  analysed :: "response list"
  reentries :: nat
  lastUrl :: jsval
  lastResponse :: "response option"
  flowToken :: jsval
  loginUrl :: jsval
  outlook :: "outlook_tokens option"

text \<open>
  What the attempt does not decide itself: the answer to an HTTP call, which may depend
  on the calls made before it (\<open>Inl\<close> when the client throws: a network error or a status
  outside 200..399), the redirect
  handler \<open>EnhancedRedirectHandler.analyzeRedirect\<close> (which reads the page's DOM and may
  fetch a one-time code; its flag \<open>NextUpdateTerm\<close> is passed in and out), the selector
  that reads the flow token out of the \<open>sFTTag\<close> markup, the privacy-notice sub-flow, the
  authorization URL built once \<open>n\<close> HTTP calls are made, the URL library (\<open>None\<close> when \<open>new URL\<close>
  throws) and the exchange of an authorization code for tokens (the token request, the
  decoding of the identity claim and the probe that follow the extraction of the code):
  it is given the code and the HTTP calls made so far, and returns what it stores, or the
  error it throws, with the calls it made.
\<close>

record env =
  client :: "request list \<Rightarrow> request \<Rightarrow> js_error + response"
  analyzeRedirect :: "bool \<Rightarrow> response \<Rightarrow> jsval \<Rightarrow> (js_error + analysis) \<times> bool"
  flowTokenOf :: "jsval \<Rightarrow> jsval"
  handlePrivacyNotice :: "flow \<Rightarrow> (js_error + AuthState) \<times> flow"
  authUrl :: "nat \<Rightarrow> jsval"
  resolveUrl :: "string \<Rightarrow> jsval \<Rightarrow> string option"
  searchParams :: "string \<Rightarrow> (string \<Rightarrow> string option) option"
  exchangeCode :: "string \<Rightarrow> request list \<Rightarrow> (js_error + outlook_tokens) \<times> request list"

text \<open>One HTTP call: the answer, and the state with the call made.\<close>

definition http :: "env \<Rightarrow> request \<Rightarrow> flow \<Rightarrow> (js_error + response) \<times> flow" where
  "http E q st = (client E (requests st) q, st\<lparr>requests := requests st @ [q]\<rparr>)"

subsection \<open>Redirect-driving loop\<close>

text \<open>The form fields of the password resubmission (\<open>ENTER_PASSWORD\<close>).\<close>

definition password_form :: "credentials \<Rightarrow> (string \<times> string) list \<Rightarrow> (string \<times> string) list" where
  "password_form c form =
     [(''login'', email c), (''loginfmt'', email c), (''passwd'', password c),
      (''PPFT'', (case map_of form ''PPFT'' of None \<Rightarrow> ''undefined'' | Some t \<Rightarrow> t)),
      (''type'', ''11''), (''ps'', ''2''), (''NewUser'', ''1''), (''i13'', ''16425'')]"

text \<open>
  The body of \<open>_followRedirects\<close>: \<open>k\<close> is the number of iterations the \<open>for\<close> loop has
  left, \<open>cur\<close> the current response and \<open>h\<close> the handler's flag.
\<close>

fun redirect_loop ::
  "env \<Rightarrow> credentials \<Rightarrow> nat \<Rightarrow> response \<Rightarrow> bool \<Rightarrow> flow \<Rightarrow> (js_error + unit) \<times> flow" where
  "redirect_loop E c 0 cur h st =
     (Inl (AuthError ''Exceeded maximum redirects'' ''REDIRECTS''), st)"
| "redirect_loop E c (Suc k) cur h st =
     (case analyzeRedirect E h cur (lastUrl st) of
        (Inl e, h') \<Rightarrow> (Inl e, st\<lparr>analysed := analysed st @ [cur]\<rparr>)
      | (Inr a, h') \<Rightarrow>
          (let st1 = st\<lparr>analysed := analysed st @ [cur]\<rparr> in
           (case rtype a of
              FINAL_PAGE \<Rightarrow> (Inr (), st1\<lparr>lastResponse := Some cur\<rparr>)
            | UNKNOWN \<Rightarrow> (Inl (AuthError ''Unknown redirect type: UNKNOWN'' ''REDIRECTS''), st1)
            | AUTO_SUBMIT \<Rightarrow>
                (case http E (POST (url a) (payload a)) (st1\<lparr>lastUrl := url a\<rparr>) of
                   (Inl e, st2) \<Rightarrow> (Inl e, st2)
                 | (Inr r, st2) \<Rightarrow> redirect_loop E c k r h' st2)
            | ENTER_PASSWORD \<Rightarrow>
                (case http E (POST (url a) (password_form c (payload a))) st1 of
                   (Inl e, st2) \<Rightarrow> (Inl e, st2)
                 | (Inr r, st2) \<Rightarrow> redirect_loop E c k r h' st2)
            | _ \<Rightarrow>
                (case http E (GET (url a)) (st1\<lparr>lastUrl := url a\<rparr>) of
                   (Inl e, st2) \<Rightarrow> (Inl e, st2)
                 | (Inr r, st2) \<Rightarrow> redirect_loop E c k r h' st2))))"

text \<open>
  \<open>_followRedirects(initialResponse, maxRedirects = 20)\<close>: a new handler, its flag unset.
  Every call in the repository leaves \<open>maxRedirects\<close> at its default.
\<close>

definition followRedirects ::
  "env \<Rightarrow> credentials \<Rightarrow> response \<Rightarrow> nat \<Rightarrow> flow \<Rightarrow> (js_error + unit) \<times> flow" where
  "followRedirects E c initialResponse maxRedirects st =
     redirect_loop E c maxRedirects initialResponse False st"

definition maxRedirects_default :: nat where
  "maxRedirects_default = 20"

subsection \<open>The redirect chains of the specification\<close>

text \<open>An analysis that asks for another HTTP call, and the call it indicates.\<close>

definition is_dispatch :: "redirect_type \<Rightarrow> bool" where
  "is_dispatch t = (t \<noteq> FINAL_PAGE \<and> t \<noteq> UNKNOWN)"

definition indicated_call :: "credentials \<Rightarrow> analysis \<Rightarrow> request" where
  "indicated_call c a =
     (if rtype a = AUTO_SUBMIT then POST (url a) (payload a)
      else if rtype a = ENTER_PASSWORD then POST (url a) (password_form c (payload a))
      else GET (url a))"

text \<open>The last URL once the call is made: the password resubmission leaves it as it is.\<close>

definition next_url :: "jsval \<Rightarrow> analysis \<Rightarrow> jsval" where
  "next_url u a = (if rtype a = ENTER_PASSWORD then u else url a)"

text \<open>
  A response sequence in which every response resolves to another redirect, from the
  response \<open>cur\<close> on, with the handler's flag \<open>h\<close>, the last URL \<open>u\<close> and the calls \<open>log\<close> made
  before: each step gives the analysis of the current response, which asks for another
  call, and the response that answers the call it indicates.
\<close>

fun redirect_chain ::
  "env \<Rightarrow> credentials \<Rightarrow> response \<Rightarrow> bool \<Rightarrow> jsval \<Rightarrow> request list \<Rightarrow>
   (analysis \<times> response) list \<Rightarrow> bool" where
  "redirect_chain E c cur h u log [] = True"
| "redirect_chain E c cur h u log (s # steps) =
     (case analyzeRedirect E h cur u of
        (Inl e, h') \<Rightarrow> False
      | (Inr a, h') \<Rightarrow>
          a = fst s \<and> is_dispatch (rtype a)
          \<and> client E log (indicated_call c a) = Inr (snd s)
          \<and> redirect_chain E c (snd s) h' (next_url u a) (log @ [indicated_call c a]) steps)"

text \<open>
  An environment in which every response resolves to another redirect: every call is
  answered, and the handler asks for another call on the first response and on every
  response that the client returns. Nothing is asked of the handler on other pages.
\<close>

definition always_redirects :: "env \<Rightarrow> response \<Rightarrow> bool" where
  "always_redirects E initialResponse =
     ((\<forall>log q. \<exists>r. client E log q = Inr r) \<and>
      (\<forall>r h u. r = initialResponse \<or> (\<exists>log q. client E log q = Inr r) \<longrightarrow>
         (\<exists>a h'. analyzeRedirect E h r u = (Inr a, h') \<and> is_dispatch (rtype a))))"

subsection \<open>Initial page\<close>

text \<open>
  \<open>_getInitialPage\<close>. The function calls itself after the terms and the privacy-notice
  sub-flows, without a bound, so the model takes fuel: \<open>None\<close> when the fuel runs out.
  Its whole body stands in a \<open>try\<close> whose \<open>catch\<close> logs the error and falls off the end
  of the function; the result is then \<open>undefined\<close> (the inner \<open>None\<close>).
\<close>

fun getInitialPage ::
  "env \<Rightarrow> credentials \<Rightarrow> nat \<Rightarrow> flow \<Rightarrow> (AuthState option \<times> flow) option" where
  "getInitialPage E c 0 st = None"
| "getInitialPage E c (Suc fuel) st =
     (case (case http E (GET (loginUrl st)) st of
              (Inl e, st1) \<Rightarrow> Some (Inl e, st1)
            | (Inr r, st1) \<Rightarrow>
                (case getAuthState r of
                   Inl e \<Rightarrow> Some (Inl e, st1)
                 | Inr state \<Rightarrow>
                     if state = MICROSOFT_HOME_PAGE then Some (Inr (Some state), st1)
                     else if state = MICROSOFT_UPDATE_TERM then
                       (case followRedirects E c r maxRedirects_default st1 of
                          (Inl e, st2) \<Rightarrow> Some (Inl e, st2)
                        | (Inr u, st2) \<Rightarrow>
                            map_option (\<lambda>(res, st3). (Inr res, st3)) (getInitialPage E c fuel st2))
                     else if state = PRIVACY_NOTICE then
                       (case handlePrivacyNotice E (st1\<lparr>lastResponse := Some r\<rparr>) of
                          (Inl e, st2) \<Rightarrow> Some (Inl e, st2)
                        | (Inr newState, st2) \<Rightarrow>
                            map_option (\<lambda>(res, st3). (Inr res, st3)) (getInitialPage E c fuel st2))
                     else if state \<noteq> INITIAL_PAGE_OK then
                       Some (Inl (AuthError ''Unexpected initial state'' ''INITIAL_PAGE''), st1)
                     else
                       (case serverData r of
                          None \<Rightarrow> Some (Inl TypeError, st1\<lparr>flowToken := JNull\<rparr>)
                        | Some ps \<Rightarrow>
                            Some (Inr (Some state),
                                  st1\<lparr>flowToken := (if truthy (own_prop ps ''sFTTag'')
                                                    then flowTokenOf E (own_prop ps ''sFTTag'')
                                                    else JNull),
                                      loginUrl := own_prop ps ''urlPost''\<rparr>)))) of
        None \<Rightarrow> None
      | Some (Inl error, st') \<Rightarrow> Some (None, st')
      | Some (Inr state, st') \<Rightarrow> Some (state, st'))"

subsection \<open>Outlook tokens\<close>

text \<open>\<open>s.replace('#', '?')\<close>: the first \<open>#\<close> becomes \<open>?\<close>.\<close>

fun replace_hash :: "string \<Rightarrow> string" where
  "replace_hash [] = []"
| "replace_hash (x # xs) = (if x = CHR ''#'' then CHR ''?'' # xs else x # replace_hash xs)"

text \<open>
  The \<open>for\<close> loop of \<open>_getOutlookTokens\<close> with \<open>k\<close> iterations left, and the check that
  follows it: the final response, or the error thrown when both hops were redirects.
\<close>

fun oauth_hops :: "env \<Rightarrow> nat \<Rightarrow> jsval \<Rightarrow> flow \<Rightarrow> (js_error + response) \<times> flow" where
  "oauth_hops E 0 currentUrl st =
     (Inl (AuthError ''No final response in OAuth flow'' ''OUTLOOK_TOKENS''), st)"
| "oauth_hops E (Suc k) currentUrl st =
     (case http E (GET currentUrl) st of
        (Inl e, st1) \<Rightarrow> (Inl e, st1)
      | (Inr r, st1) \<Rightarrow>
          (case location r of
             None \<Rightarrow> (Inr r, st1)
           | Some l \<Rightarrow>
               if l \<noteq> [] \<and> \<not> includes_str l ''#code''
                  \<and> \<not> includes_str l ''interaction_required''
               then (case resolveUrl E l currentUrl of
                       None \<Rightarrow> (Inl TypeError, st1)
                     | Some u \<Rightarrow> oauth_hops E k (JStr u) st1)
               else (Inr r, st1)))"

text \<open>\<open>!v\<close> for what \<open>searchParams.get\<close> returns: \<open>null\<close> or a string.\<close>

definition absent :: "string option \<Rightarrow> bool" where
  "absent v = (case v of None \<Rightarrow> True | Some s \<Rightarrow> s = [])"

text \<open>\<open>searchParams.get('code')\<close> when it is truthy.\<close>

definition code_of :: "(string \<Rightarrow> string option) \<Rightarrow> string option" where
  "code_of params = (if absent (params ''code'') then None else params ''code'')"

definition login_reentry_url :: jsval where
  "login_reentry_url = JStr ''https://login.live.com/login.srf?wreply=https://outlook.live.com/owa/0/''"

text \<open>
  \<open>_getOutlookTokens(retry = false)\<close>: \<open>true\<close> when the tokens were stored, \<open>false\<close> from
  the \<open>catch\<close> block, which takes every error thrown in the body.
\<close>

function getOutlookTokens :: "env \<Rightarrow> credentials \<Rightarrow> bool \<Rightarrow> flow \<Rightarrow> bool \<times> flow" where
  "getOutlookTokens E c retry st =
     (case (case oauth_hops E 2 (authUrl E (length (requests st))) st of
              (Inl e, st1) \<Rightarrow> (Inl e, st1)
            | (Inr finalResponse, st1) \<Rightarrow>
                (case location finalResponse of
                   None \<Rightarrow> (Inl TypeError, st1)
                 | Some l \<Rightarrow>
                     (case searchParams E (replace_hash l) of
                        None \<Rightarrow> (Inl TypeError, st1)
                      | Some params \<Rightarrow>
                          (case code_of params of
                             None \<Rightarrow>
                            (if \<not> retry \<and> \<not> absent (params ''error'') then
                               (case http E (GET login_reentry_url)
                                       (st1\<lparr>reentries := Suc (reentries st1)\<rparr>) of
                                  (Inl e, st2) \<Rightarrow> (Inl e, st2)
                                | (Inr r, st2) \<Rightarrow>
                                    (case followRedirects E c r maxRedirects_default st2 of
                                       (Inl e, st3) \<Rightarrow> (Inl e, st3)
                                     | (Inr u, st3) \<Rightarrow>
                                         (case getOutlookTokens E c True st3 of
                                            (b, st4) \<Rightarrow> (Inr b, st4))))
                             else (Inl (AuthError ''Could not extract authorization code''
                                          ''OUTLOOK_TOKENS''), st1))
                           | Some code \<Rightarrow>
                               (case exchangeCode E code (requests st1) of
                                  (Inl e, made) \<Rightarrow>
                                    (Inl e, st1\<lparr>requests := requests st1 @ made\<rparr>)
                                | (Inr t, made) \<Rightarrow>
                                    (Inr True, st1\<lparr>requests := requests st1 @ made,
                                                   outlook := Some t\<rparr>)))))) of
        (Inl error, st') \<Rightarrow> (False, st')
      | (Inr b, st') \<Rightarrow> (b, st'))"
  by pat_completeness auto
termination
  by (relation "measure (\<lambda>(E, c, retry, st). if retry then 0 else 1)") auto

declare getOutlookTokens.simps [simp del]

section \<open>OTP retrieval (OutlookOTPFetcher)\<close>

subsection \<open>Regular expressions\<close>

datatype cclass = Digit | Space | AnyChar | ColonOrSpace

datatype item =
    Lit bool string
  | LitWide "int list"
  | Rep cclass nat "nat option" bool bool
  | Opt "item list"
  | WordBoundary

text \<open>
  Character tests on the bits of a character, least significant first:
  \<open>\d\<close> is \<open>0..9\<close>, \<open>\s\<close> the white space below 256 (9 to 13, 32 and 160) and \<open>\w\<close> the
  letters, the digits and the underscore.
\<close>

fun is_digit :: "char \<Rightarrow> bool" where
  "is_digit (Char b0 b1 b2 b3 b4 b5 b6 b7) =
     (\<not> b7 \<and> \<not> b6 \<and> b5 \<and> b4 \<and> \<not> (b3 \<and> (b2 \<or> b1)))"

fun is_space :: "char \<Rightarrow> bool" where
  "is_space (Char b0 b1 b2 b3 b4 b5 b6 b7) =
     ((\<not> b7 \<and> \<not> b6 \<and> \<not> b5 \<and> \<not> b4 \<and> b3 \<and> (\<not> b2 \<and> (b1 \<or> b0) \<or> b2 \<and> \<not> b1))
      \<or> (\<not> b6 \<and> b5 \<and> \<not> b4 \<and> \<not> b3 \<and> \<not> b2 \<and> \<not> b1 \<and> \<not> b0))"

text \<open>The letters \<open>A..Z\<close> and \<open>a..z\<close>: 010xxxxx and 011xxxxx with xxxxx from 1 to 26.\<close>

fun is_letter :: "char \<Rightarrow> bool" where
  "is_letter (Char b0 b1 b2 b3 b4 b5 b6 b7) =
     (\<not> b7 \<and> b6 \<and> (b0 \<or> b1 \<or> b2 \<or> b3 \<or> b4) \<and> \<not> (b4 \<and> b3 \<and> (b2 \<or> b1 \<and> b0)))"

fun is_underscore :: "char \<Rightarrow> bool" where
  "is_underscore (Char b0 b1 b2 b3 b4 b5 b6 b7) =
     (b0 \<and> b1 \<and> b2 \<and> b3 \<and> b4 \<and> \<not> b5 \<and> b6 \<and> \<not> b7)"

definition is_word :: "char \<Rightarrow> bool" where
  "is_word c = (is_digit c \<or> is_letter c \<or> is_underscore c)"

fun is_line_end :: "char \<Rightarrow> bool" where
  "is_line_end (Char b0 b1 b2 b3 b4 b5 b6 b7) =
     (\<not> b7 \<and> \<not> b6 \<and> \<not> b5 \<and> \<not> b4 \<and> b3 \<and> (\<not> b2 \<and> b1 \<and> \<not> b0 \<or> b2 \<and> \<not> b1 \<and> b0))"

fun in_class :: "cclass \<Rightarrow> char \<Rightarrow> bool" where
  "in_class Digit c = is_digit c"
| "in_class Space c = is_space c"
| "in_class AnyChar c = (\<not> is_line_end c)"
| "in_class ColonOrSpace c = (c = CHR '':'' \<or> is_space c)"

text \<open>
  Canonicalize of the \<open>i\<close> flag for characters below 256: a lower-case letter of Basic
  Latin or Latin-1 (\<open>a..z\<close>, and 224 to 254 but 247) loses bit 5; every other
  character is kept. (The two characters whose upper case lies above 255 are kept as
  well: no other character below 256 shares their canonical form.)
\<close>

fun canonicalize :: "char \<Rightarrow> char" where
  "canonicalize (Char b0 b1 b2 b3 b4 b5 b6 b7) =
     (if b5 \<and> b6 \<and>
         (if b7 then \<not> (b0 \<and> b1 \<and> b2 \<and> b4 \<and> (b3 \<or> \<not> b3))
          else (b0 \<or> b1 \<or> b2 \<or> b3 \<or> b4) \<and> \<not> (b4 \<and> b3 \<and> (b2 \<or> b1 \<and> b0)))
      then Char b0 b1 b2 b3 b4 False b6 b7
      else Char b0 b1 b2 b3 b4 b5 b6 b7)"

definition unit_matches :: "bool \<Rightarrow> char \<Rightarrow> char \<Rightarrow> bool" where
  "unit_matches ci p c = (if ci then canonicalize p = canonicalize c else p = c)"

fun lit_prefix :: "bool \<Rightarrow> string \<Rightarrow> string \<Rightarrow> string option" where
  "lit_prefix ci [] s = Some s"
| "lit_prefix ci (p # ps) [] = None"
| "lit_prefix ci (p # ps) (c # cs) = (if unit_matches ci p c then lit_prefix ci ps cs else None)"

text \<open>The length of the run of class characters at the head of the text, at most \<open>hi\<close>.\<close>

fun run_length :: "cclass \<Rightarrow> nat option \<Rightarrow> string \<Rightarrow> nat" where
  "run_length cl hi [] = 0"
| "run_length cl hi (c # cs) =
     (if hi = Some 0 \<or> \<not> in_class cl c then 0
      else Suc (run_length cl (map_option (\<lambda>h. h - 1) hi) cs))"

text \<open>The repetition counts to try, in the engine's order.\<close>

fun count_down :: "nat \<Rightarrow> nat \<Rightarrow> nat list" where
  "count_down lo 0 = (if lo = 0 then [0] else [])"
| "count_down lo (Suc n) = (if lo \<le> Suc n then Suc n # count_down lo n else [])"

definition counts :: "nat \<Rightarrow> nat \<Rightarrow> bool \<Rightarrow> nat list" where
  "counts lo n greedy = (if greedy then count_down lo n else rev (count_down lo n))"

fun first_some :: "'a option list \<Rightarrow> 'a option" where
  "first_some [] = None"
| "first_some (None # xs) = first_some xs"
| "first_some (Some r # xs) = Some r"

text \<open>The character before a position, after a piece of text was consumed.\<close>

definition prev_after :: "char option \<Rightarrow> string \<Rightarrow> char option" where
  "prev_after prev consumed = (if consumed = [] then prev else Some (last consumed))"

definition word_opt :: "char option \<Rightarrow> bool" where
  "word_opt c = (case c of None \<Rightarrow> False | Some x \<Rightarrow> is_word x)"

definition head_opt :: "string \<Rightarrow> char option" where
  "head_opt s = (case s of [] \<Rightarrow> None | c # cs \<Rightarrow> Some c)"

text \<open>
  Matching at a position: \<open>prev\<close> is the character before it, \<open>cap\<close> the capture so far.
  The result is the capture of the first successful path.
\<close>

function match_items ::
  "item list \<Rightarrow> char option \<Rightarrow> string \<Rightarrow> string option \<Rightarrow> string option option" where
  "match_items [] prev s cap = Some cap"
| "match_items (Lit ci l # rest) prev s cap =
     (case lit_prefix ci l s of
        None \<Rightarrow> None
      | Some s' \<Rightarrow> match_items rest (prev_after prev (take (length l) s)) s' cap)"
| "match_items (LitWide l # rest) prev s cap =
     (if l = [] then match_items rest prev s cap else None)"
| "match_items (Rep cl lo hi greedy capture # rest) prev s cap =
     first_some
       (map (\<lambda>k. match_items rest (prev_after prev (take k s)) (drop k s)
                   (if capture then Some (take k s) else cap))
            (counts lo (run_length cl hi s) greedy))"
| "match_items (Opt xs # rest) prev s cap =
     (case match_items (xs @ rest) prev s cap of
        Some r \<Rightarrow> Some r
      | None \<Rightarrow> match_items rest prev s cap)"
| "match_items (WordBoundary # rest) prev s cap =
     (if word_opt prev \<noteq> word_opt (head_opt s) then match_items rest prev s cap else None)"
  by pat_completeness auto
termination
  by (relation "measure (\<lambda>(p, prev, s, cap). size_list size p)") auto

text \<open>\<open>text.match(pattern)\<close>: the leftmost position at which the pattern matches.\<close>

fun search_from :: "item list \<Rightarrow> char option \<Rightarrow> string \<Rightarrow> string option option" where
  "search_from p prev [] = match_items p prev [] None"
| "search_from p prev (c # cs) =
     (case match_items p prev (c # cs) None of
        Some r \<Rightarrow> Some r
      | None \<Rightarrow> search_from p (Some c) cs)"

definition search :: "item list \<Rightarrow> string \<Rightarrow> string option option" where
  "search p s = search_from p None s"

subsection \<open>The patterns of extractOTPFromPreview\<close>

definition lit :: "string \<Rightarrow> item" where
  "lit s = Lit True s"

definition ws0 :: item where "ws0 = Rep Space 0 None True False"
definition ws1 :: item where "ws1 = Rep Space 1 None True False"
definition digits48 :: item where "digits48 = Rep Digit 4 (Some 8) True True"
definition lazy_any :: item where "lazy_any = Rep AnyChar 0 None False False"
definition colon_ws1 :: item where "colon_ws1 = Rep ColonOrSpace 1 None True False"

definition bare :: "nat \<Rightarrow> item list" where
  "bare n = [WordBoundary, Rep Digit n (Some n) True True, WordBoundary]"

definition labeled_patterns :: "item list list" where
  "labeled_patterns =
     [[lit ''Security code:'', ws0, digits48],
      [lit ''security code'', ws1, digits48],
      [lit ''Security code'', ws1, lit ''is'', ws1, digits48],
      [lit ''verification code:'', ws0, digits48],
      [lit ''verification code'', ws1, digits48],
      [lit ''verify'', lazy_any, lit ''code:'', ws0, digits48],
      [lit ''Your code:'', ws0, digits48],
      [lit ''your code'', ws1, digits48],
      [lit ''code is:'', ws0, digits48],
      [lit ''code is'', ws1, digits48],
      [lit ''code:'', ws0, digits48],
      [lit ''One-time code:'', ws0, digits48],
      [lit ''one-time code'', ws1, digits48],
      [lit ''OTP:'', ws0, digits48],
      [lit ''OTP'', ws1, digits48],
      [lit ''passcode:'', ws0, digits48],
      [lit ''passcode'', ws1, digits48],
      [lit ''pass code:'', ws0, digits48],
      [lit ''use'', ws1, Opt [lit ''the'', ws1], Opt [lit ''following'', ws1],
       Opt [lit ''security'', ws1], lit ''code'', colon_ws1, digits48],
      [lit ''please'', ws1, lit ''use'', lazy_any, lit ''code'', colon_ws1, digits48],
      [lit ''access code:'', ws0, digits48],
      [lit ''access code'', ws1, digits48]]"

definition fallback_patterns :: "item list list" where
  "fallback_patterns =
     [bare 6, bare 5, bare 7, bare 8, bare 4,
      [Lit False ''['', digits48, Lit False '']''],
      [Lit False ''('', digits48, Lit False '')''],
      [Lit False ''{'', digits48, Lit False ''}'']]"

definition multi_language_patterns :: "item list list" where
  "multi_language_patterns =
     [[lit [CHR ''c'', CHR 0xF3, CHR ''d'', CHR ''i'', CHR ''g'', CHR ''o'', CHR '':''], ws0, digits48],
      [lit ''code:'', ws0, digits48],
      [LitWide [1082, 1086, 1076, 58], ws0, digits48],
      [LitWide [20195, 30721, 58], ws0, digits48],
      [LitWide [12467, 12540, 12489, 58], ws0, digits48],
      [lit ''codice:'', ws0, digits48],
      [lit ''Kode:'', ws0, digits48]]"

definition patterns :: "item list list" where
  "patterns = labeled_patterns @ fallback_patterns @ multi_language_patterns"

subsection \<open>extractOTPFromPreview\<close>

fun replace_crlf :: "string \<Rightarrow> string" where
  "replace_crlf (a # b # xs) =
     (if a = CHR 0x0D \<and> b = CHR 0x0A then CHR '' '' # replace_crlf xs else a # replace_crlf (b # xs))"
| "replace_crlf xs = xs"

definition replace_lf :: "string \<Rightarrow> string" where
  "replace_lf s = map (\<lambda>c. if c = CHR 0x0A then CHR '' '' else c) s"

text \<open>\<open>replace(/\s+/g, ' ')\<close>: every run of white space becomes one space.\<close>

fun collapse_run :: "bool \<Rightarrow> string \<Rightarrow> string" where
  "collapse_run in_run [] = []"
| "collapse_run in_run (c # cs) =
     (if is_space c then (if in_run then collapse_run True cs else CHR '' '' # collapse_run True cs)
      else c # collapse_run False cs)"

definition collapse_ws :: "string \<Rightarrow> string" where
  "collapse_ws s = collapse_run False s"

definition trim :: "string \<Rightarrow> string" where
  "trim s = rev (dropWhile is_space (rev (dropWhile is_space s)))"

definition cleanText :: "string \<Rightarrow> string" where
  "cleanText preview = trim (collapse_ws (replace_lf (replace_crlf preview)))"

text \<open>
  The loop over the patterns: the first capture that is non-empty and four to eight
  characters long.
\<close>

fun try_patterns :: "item list list \<Rightarrow> string \<Rightarrow> string option" where
  "try_patterns [] t = None"
| "try_patterns (p # ps) t =
     (case search p t of
        Some (Some code) \<Rightarrow>
          if code \<noteq> [] \<and> 4 \<le> length code \<and> length code \<le> 8 then Some code
          else try_patterns ps t
      | _ \<Rightarrow> try_patterns ps t)"

definition extractOTPFromPreview :: "string \<Rightarrow> string option" where
  "extractOTPFromPreview preview =
     (if preview = [] then None else try_patterns patterns (cleanText preview))"


subsection \<open>Candidate emails\<close>

text \<open>
  \<open>toLowerCase\<close> on characters below 256: an upper-case letter of Basic Latin or Latin-1
  (\<open>A..Z\<close>, and 192 to 222 but 215) gains bit 5.
\<close>

fun toLowerChar :: "char \<Rightarrow> char" where
  "toLowerChar (Char b0 b1 b2 b3 b4 b5 b6 b7) =
     (if b6 \<and> \<not> b5 \<and>
         (if b7 then \<not> (b0 \<and> b1 \<and> b2 \<and> b4)
          else (b0 \<or> b1 \<or> b2 \<or> b3 \<or> b4) \<and> \<not> (b4 \<and> b3 \<and> (b2 \<or> b1 \<and> b0)))
      then Char b0 b1 b2 b3 b4 True b6 b7
      else Char b0 b1 b2 b3 b4 b5 b6 b7)"

definition toLowerCase :: "string \<Rightarrow> string" where
  "toLowerCase s = map toLowerChar s"

text \<open>
  \<open>LastDeliveryTime\<close> of a conversation: absent or the empty string (falsy, and no date
  for \<open>new Date\<close>), \<open>null\<close> (falsy, and the epoch for \<open>new Date\<close>), a string that \<open>Date\<close>
  cannot read (truthy, its time is \<open>NaN\<close>), or a date, given in milliseconds since the
  epoch.
\<close>

datatype delivery = NoTime | NullTime | BadTime | At int

text \<open>
  A conversation of the mailbox listing, with the members the fetcher reads;
  \<open>senderAddress\<close> is \<open>LastSender?.Mailbox?.EmailAddress\<close>.
\<close>

record conversation =
  ConversationTopic :: "string option"
  senderAddress :: "string option"
  LastDeliveryTime :: delivery
  Preview :: "string option"

text \<open>\<open>(v || '')\<close> for a member that is a string or absent.\<close>

definition or_empty :: "string option \<Rightarrow> string" where
  "or_empty v = (case v of None \<Rightarrow> [] | Some s \<Rightarrow> s)"

text \<open>
  The recency test of both paths: a conversation whose delivery time is falsy passes, one
  whose time is \<open>NaN\<close> fails (\<open>NaN <= maxAge\<close> is false).
\<close>

definition isRecent :: "int \<Rightarrow> int \<Rightarrow> conversation \<Rightarrow> bool" where
  "isRecent now maxAge conv =
     (case LastDeliveryTime conv of
        NoTime \<Rightarrow> True
      | NullTime \<Rightarrow> True
      | BadTime \<Rightarrow> False
      | At deliveryTime \<Rightarrow> now - deliveryTime \<le> maxAge)"

text \<open>The first candidate, in order, whose preview yields a code.\<close>

fun first_otp :: "conversation list \<Rightarrow> (string \<times> conversation) option" where
  "first_otp [] = None"
| "first_otp (e # es) =
     (if or_empty (Preview e) \<noteq> []
      then (case extractOTPFromPreview (or_empty (Preview e)) of
              Some otp \<Rightarrow> Some (otp, e)
            | None \<Rightarrow> first_otp es)
      else first_otp es)"

subsubsection \<open>The snapshot path: extractOTPFromStartupData\<close>

definition hasSecuritySubject :: "conversation \<Rightarrow> bool" where
  "hasSecuritySubject conv =
     (let subject = toLowerCase (or_empty (ConversationTopic conv))
      in includes_str subject ''security code'' \<or> includes_str subject ''verification code''
         \<or> includes_str subject ''security info'' \<or> includes_str subject ''verify'')"

definition isMicrosoft :: "conversation \<Rightarrow> bool" where
  "isMicrosoft conv =
     (let sender = toLowerCase (or_empty (senderAddress conv))
      in includes_str sender ''microsoft'' \<or> includes_str sender ''accountprotection''
         \<or> includes_str sender ''account-security'')"

text \<open>\<open>new Date(c.LastDeliveryTime || 0).getTime()\<close>, for the candidates the filter lets through.\<close>

definition delivery_or_epoch :: "conversation \<Rightarrow> int" where
  "delivery_or_epoch conv = (case LastDeliveryTime conv of At t \<Rightarrow> t | _ \<Rightarrow> 0)"

text \<open>
  The filter with the window of ten minutes that the function fixes, and the sort, most
  recent first (\<open>Array.prototype.sort\<close> is stable).
\<close>

definition securityEmails :: "int \<Rightarrow> conversation list \<Rightarrow> conversation list" where
  "securityEmails now conversations =
     sort_key (\<lambda>conv. - delivery_or_epoch conv)
       (filter (\<lambda>conv. hasSecuritySubject conv \<and> isMicrosoft conv \<and> isRecent now 600000 conv)
          conversations)"

text \<open>
  \<open>extractOTPFromStartupData\<close>, given the conversations found in the startup data
  (\<open>None\<close> when there is no such array): the code and the email it came from.
\<close>

definition extractOTPFromStartupData ::
  "int \<Rightarrow> conversation list option \<Rightarrow> (string \<times> conversation) option" where
  "extractOTPFromStartupData now startupData =
     (case startupData of
        None \<Rightarrow> None
      | Some conversations \<Rightarrow> first_otp (securityEmails now conversations))"

subsubsection \<open>The conversation-search path of findMicrosoftOTP\<close>

definition default_senderFilters :: "string list" where
  "default_senderFilters =
     [''account-security-noreply@accountprotection.microsoft.com'',
      ''noreply@microsoft.com'',
      ''microsoft-noreply@microsoft.com'']"

definition default_subjectFilters :: "string list" where
  "default_subjectFilters = [''security code'', ''verification code'', ''verify'', ''security info'']"

definition default_maxAge :: int where
  "default_maxAge = 600000"

definition senderMatches :: "string list \<Rightarrow> conversation \<Rightarrow> bool" where
  "senderMatches senderFilters conv =
     (let sender = toLowerCase (or_empty (senderAddress conv))
      in list_ex (\<lambda>f. includes_str sender (toLowerCase f)) senderFilters
         \<or> includes_str sender ''microsoft'')"

definition subjectMatches :: "string list \<Rightarrow> conversation \<Rightarrow> bool" where
  "subjectMatches subjectFilters conv =
     (let subject = toLowerCase (or_empty (ConversationTopic conv))
      in list_ex (\<lambda>f. includes_str subject (toLowerCase f)) subjectFilters)"

text \<open>
  \<open>new Date(conv.LastDeliveryTime)\<close> as a number, \<open>None\<close> for \<open>NaN\<close>; a conversation is
  dated when this is a number.
\<close>

definition time_of :: "conversation \<Rightarrow> int option" where
  "time_of conv =
     (case LastDeliveryTime conv of
        NoTime \<Rightarrow> None
      | NullTime \<Rightarrow> Some 0
      | BadTime \<Rightarrow> None
      | At t \<Rightarrow> Some t)"

definition dated :: "conversation \<Rightarrow> bool" where
  "dated conv = (time_of conv \<noteq> None)"

text \<open>
  The comparator \<open>(a, b) => new Date(b.LastDeliveryTime) - new Date(a.LastDeliveryTime)\<close>
  as the sort reads it: a result \<open>NaN\<close> counts as \<open>+0\<close>.
\<close>

definition compare_delivery :: "conversation \<Rightarrow> conversation \<Rightarrow> int" where
  "compare_delivery a b =
     (case (time_of b, time_of a) of
        (Some tb, Some ta) \<Rightarrow> tb - ta
      | _ \<Rightarrow> 0)"

text \<open>
  The filter and the sort of the conversation-search path. Where every accepted
  candidate is dated the comparator is a consistent comparison and the language fixes the
  result, the stable sort by descending time (the time of a dated conversation is its
  \<open>delivery_or_epoch\<close>). A candidate that is not dated makes the
  comparator return \<open>NaN\<close>; the order is then the one the engine's sorting procedure
  produces, which is the parameter \<open>engine\<close>: it is given the comparator and the list.
\<close>

definition recentEmails ::
  "((conversation \<Rightarrow> conversation \<Rightarrow> int) \<Rightarrow> conversation list \<Rightarrow> conversation list) \<Rightarrow>
   int \<Rightarrow> int \<Rightarrow> string list \<Rightarrow> string list \<Rightarrow> conversation list \<Rightarrow> conversation list" where
  "recentEmails engine now maxAge senderFilters subjectFilters conversations =
     (let accepted =
            filter (\<lambda>conv. senderMatches senderFilters conv \<and> subjectMatches subjectFilters conv
                            \<and> isRecent now maxAge conv)
              conversations
      in if list_all dated accepted
         then sort_key (\<lambda>conv. - delivery_or_epoch conv) accepted
         else engine compare_delivery accepted)"

subsubsection \<open>findMicrosoftOTP\<close>

datatype otp_method = startup_data_direct | conversation_api

datatype otp_result =
    Found string conversation otp_method
  | NotFound string

text \<open>
  \<open>findMicrosoftOTP\<close> on an empty folder cache, given what the two requests answer: the
  conversations of the startup data (\<open>None\<close> when the request fails or holds no such
  array), whether folder ids were obtained, and the conversations of the search
  (\<open>None\<close> when that request fails).
\<close>

definition findMicrosoftOTP ::
  "((conversation \<Rightarrow> conversation \<Rightarrow> int) \<Rightarrow> conversation list \<Rightarrow> conversation list) \<Rightarrow>
   int \<Rightarrow> int \<Rightarrow> string list \<Rightarrow> string list \<Rightarrow> conversation list option \<Rightarrow> bool \<Rightarrow>
   conversation list option \<Rightarrow> otp_result" where
  "findMicrosoftOTP engine now maxAge senderFilters subjectFilters startupData folderIds found =
     (case extractOTPFromStartupData now startupData of
        Some (otp, e) \<Rightarrow> Found otp e startup_data_direct
      | None \<Rightarrow>
          if \<not> folderIds
          then NotFound ''Could not obtain folder IDs and no OTP found in startup data''
          else (case found of
                  None \<Rightarrow> NotFound ''No OTP found in available emails''
                | Some conversations \<Rightarrow>
                    if conversations = []
                    then NotFound ''No OTP found in available emails''
                    else (case first_otp (recentEmails engine now maxAge senderFilters
                                            subjectFilters conversations) of
                            Some (otp, e) \<Rightarrow> Found otp e conversation_api
                          | None \<Rightarrow> NotFound ''No OTP found in available emails'')))"

subsection \<open>The candidate conditions of the specification\<close>

definition security_keywords :: "string list" where
  "security_keywords = [''security code'', ''verification code'', ''security info'', ''verify'']"

definition provider_keywords :: "string list" where
  "provider_keywords = [''microsoft'', ''accountprotection'', ''account-security'']"

text \<open>The subject contains a security-code keyword, whatever the case of its letters.\<close>

definition subject_has_keyword :: "conversation \<Rightarrow> bool" where
  "subject_has_keyword conv =
     list_ex (includes_str (toLowerCase (or_empty (ConversationTopic conv)))) security_keywords"

text \<open>The sender address contains a provider keyword.\<close>

definition sender_is_provider :: "conversation \<Rightarrow> bool" where
  "sender_is_provider conv =
     list_ex (includes_str (toLowerCase (or_empty (senderAddress conv)))) provider_keywords"

section \<open>OAuth/PKCE token acquirer (createMicrosoftAuthUrl)\<close>

subsection \<open>Base64\<close>

type_synonym byte = "8 word"

definition std_alphabet :: string where
  "std_alphabet = ''ABCDEFGHIJKLMNOPQRSTUVWXYZabcdefghijklmnopqrstuvwxyz0123456789+/''"

definition url_alphabet :: string where
  "url_alphabet = ''ABCDEFGHIJKLMNOPQRSTUVWXYZabcdefghijklmnopqrstuvwxyz0123456789-_''"

text \<open>
  Base64 over an alphabet, with or without the padding: three bytes give four
  characters, a rest of one or two bytes gives two or three.
\<close>

fun base64_with :: "string \<Rightarrow> bool \<Rightarrow> byte list \<Rightarrow> string" where
  "base64_with al pad [] = []"
| "base64_with al pad [a] =
     [al ! (unat a div 4), al ! ((unat a mod 4) * 16)] @ (if pad then ''=='' else [])"
| "base64_with al pad [a, b] =
     [al ! (unat a div 4), al ! ((unat a mod 4) * 16 + unat b div 16),
      al ! ((unat b mod 16) * 4)] @ (if pad then ''='' else [])"
| "base64_with al pad (a # b # c # rest) =
     [al ! (unat a div 4), al ! ((unat a mod 4) * 16 + unat b div 16),
      al ! ((unat b mod 16) * 4 + unat c div 64), al ! (unat c mod 64)]
     @ base64_with al pad rest"

text \<open>\<open>buffer.toString("base64")\<close>.\<close>

definition base64 :: "byte list \<Rightarrow> string" where
  "base64 buffer = base64_with std_alphabet True buffer"

text \<open>The helper \<open>base64UrlEncode\<close>: the three replacements on the standard encoding.\<close>

definition base64UrlEncode :: "byte list \<Rightarrow> string" where
  "base64UrlEncode buffer =
     filter (\<lambda>x. x \<noteq> CHR ''='')
       (map (\<lambda>x. if x = CHR ''/'' then CHR ''_'' else x)
          (map (\<lambda>x. if x = CHR ''+'' then CHR ''-'' else x) (base64 buffer)))"

text \<open>The unpadded base64url encoding of the specification (RFC 4648, section 5).\<close>

definition base64url_nopad :: "byte list \<Rightarrow> string" where
  "base64url_nopad bs = base64_with url_alphabet False bs"

subsection \<open>SHA-256\<close>

text \<open>
  \<open>crypto.createHash("sha256")\<close>, as FIPS 180-4 defines the function, on 32-bit words.
\<close>

type_synonym w32 = "32 word"

definition Ch :: "w32 \<Rightarrow> w32 \<Rightarrow> w32 \<Rightarrow> w32" where
  "Ch x y z = (x AND y) XOR (NOT x AND z)"

definition Maj :: "w32 \<Rightarrow> w32 \<Rightarrow> w32 \<Rightarrow> w32" where
  "Maj x y z = (x AND y) XOR (x AND z) XOR (y AND z)"

definition Sigma0 :: "w32 \<Rightarrow> w32" where
  "Sigma0 x = word_rotr 2 x XOR word_rotr 13 x XOR word_rotr 22 x"

definition Sigma1 :: "w32 \<Rightarrow> w32" where
  "Sigma1 x = word_rotr 6 x XOR word_rotr 11 x XOR word_rotr 25 x"

definition sigma0 :: "w32 \<Rightarrow> w32" where
  "sigma0 x = word_rotr 7 x XOR word_rotr 18 x XOR drop_bit 3 x"

definition sigma1 :: "w32 \<Rightarrow> w32" where
  "sigma1 x = word_rotr 17 x XOR word_rotr 19 x XOR drop_bit 10 x"

text \<open>
  The standard fixes its constants by their origin: the round constants are the first
  thirty-two bits of the fractional parts of the cube roots of the first sixty-four primes,
  the initial hash value those of the square roots of the first eight. They are computed
  here from that description (the sixty-fourth prime is 311, the eighth is 19):
  \<open>root_bits k i n 0\<close> is the integer \<open>k\<close>-th root of \<open>n\<close> on \<open>i\<close> bits, found bit by bit
  from the top.
\<close>

function sieve :: "int list \<Rightarrow> int list" where
  "sieve [] = []"
| "sieve (p # xs) = p # sieve (filter (\<lambda>x. x mod p \<noteq> 0) xs)"
  by pat_completeness auto
termination
  by (relation "measure length") (auto simp: less_Suc_eq_le)

definition primes_upto :: "int \<Rightarrow> int list" where
  "primes_upto n = sieve [2 .. n]"

fun root_bits :: "nat \<Rightarrow> nat \<Rightarrow> int \<Rightarrow> int \<Rightarrow> int" where
  "root_bits k 0 n r = r"
| "root_bits k (Suc i) n r =
     (let r' = r + 2 ^ i in root_bits k i n (if r' ^ k \<le> n then r' else r))"

definition fraction_word :: "nat \<Rightarrow> int \<Rightarrow> w32" where
  "fraction_word k p = word_of_int (root_bits k 36 (p * 2 ^ (32 * k)) 0)"

definition K256 :: "w32 list" where
  "K256 = map (fraction_word 3) (primes_upto 311)"

definition H256 :: "w32 list" where
  "H256 = map (fraction_word 2) (primes_upto 19)"

text \<open>The message with its padding: the bit 1, zeros, and the length in bits on 64 bits.\<close>

definition length_bytes :: "nat \<Rightarrow> byte list" where
  "length_bytes n =
     (let w = (of_nat n :: 64 word)
      in map (\<lambda>i. ucast (drop_bit (8 * i) w)) (rev [0 ..< 8]))"

definition pad256 :: "byte list \<Rightarrow> byte list" where
  "pad256 m =
     m @ [0x80] @ replicate ((55 + 64 - length m mod 64) mod 64) 0 @ length_bytes (8 * length m)"

fun be_words :: "byte list \<Rightarrow> w32 list" where
  "be_words (a # b # c # d # rest) =
     (push_bit 24 (ucast a) OR push_bit 16 (ucast b) OR push_bit 8 (ucast c) OR ucast d)
     # be_words rest"
| "be_words rest = []"

text \<open>
  The 64 rounds on one block: \<open>ws\<close> holds the sixteen words of the message schedule
  from the current one on, \<open>ks\<close> the round constants that are left.
\<close>

fun rounds :: "w32 list \<Rightarrow> w32 list \<Rightarrow> w32 list \<Rightarrow> w32 list" where
  "rounds [] ws st = st"
| "rounds (k # ks) ws [a, b, c, d, e, f, g, h] =
     (let t1 = h + Sigma1 e + Ch e f g + k + hd ws;
          t2 = Sigma0 a + Maj a b c;
          w = sigma1 (ws ! 14) + ws ! 9 + sigma0 (ws ! 1) + ws ! 0
      in rounds ks (tl ws @ [w]) [t1 + t2, a, b, c, d + t1, e, f, g])"
| "rounds (k # ks) ws st = st"

definition compress :: "w32 list \<Rightarrow> w32 list \<Rightarrow> w32 list" where
  "compress st block = map2 (+) st (rounds K256 block st)"

fun blocks :: "w32 list \<Rightarrow> w32 list \<Rightarrow> w32 list" where
  "blocks st ws = (if length ws < 16 then st else blocks (compress st (take 16 ws)) (drop 16 ws))"

declare blocks.simps [simp del]

definition word_bytes :: "w32 \<Rightarrow> byte list" where
  "word_bytes w = [ucast (drop_bit 24 w), ucast (drop_bit 16 w), ucast (drop_bit 8 w), ucast w]"

definition sha256 :: "byte list \<Rightarrow> byte list" where
  "sha256 m = concat (map word_bytes (blocks H256 (be_words (pad256 m))))"

text \<open>The bytes of a string in UTF-8, for code units below 256.\<close>

definition utf8 :: "string \<Rightarrow> byte list" where
  "utf8 s =
     concat (map (\<lambda>c. let n = of_char c :: nat
                       in if n < 128 then [of_nat n]
                          else [of_nat (192 + n div 64), of_nat (128 + n mod 64)]) s)"

subsection \<open>createMicrosoftAuthUrl\<close>

record auth_config =
  clientId :: string
  authority :: string
  redirectUri :: string
  loginHint :: "string option"
  scopes :: "string list option"
  prompt :: "string option"
  response_mode :: "string option"
  x_client_SKU :: "string option"
  x_client_VER :: "string option"

text \<open>
  The random generator is given by the sequence of the bytes it will hand out;
  \<open>crypto.randomBytes(n)\<close> takes the next \<open>n\<close> of them.
\<close>

type_synonym random_source = "nat \<Rightarrow> byte"

definition randomBytes :: "nat \<Rightarrow> random_source \<Rightarrow> byte list \<times> random_source" where
  "randomBytes n g = (map g [0 ..< n], \<lambda>i. g (n + i))"

text \<open>
  The result: the authorization endpoint with the query parameters in their order (the
  URL before its encoding), and the request context to be saved.
\<close>

record auth_request =
  authEndpoint :: string
  paramsObject :: "(string \<times> string) list"
  codeVerifier :: string
  state :: string
  nonce :: string
  correlationId :: string
  requestScopes :: string

definition hex_digit :: "nat \<Rightarrow> char" where
  "hex_digit n = ''0123456789abcdef'' ! n"

definition hex :: "byte list \<Rightarrow> string" where
  "hex buffer = concat (map (\<lambda>b. [hex_digit (unat b div 16), hex_digit (unat b mod 16)]) buffer)"

text \<open>\<open>s.slice(i, j)\<close> for \<open>0 \<le> i \<le> j\<close>.\<close>

definition slice :: "nat \<Rightarrow> nat \<Rightarrow> string \<Rightarrow> string" where
  "slice i j s = take (j - i) (drop i s)"

text \<open>\<open>createNewGuid\<close>: the identifier, and the generator after its sixteen bytes.\<close>

definition createNewGuid :: "random_source \<Rightarrow> string \<times> random_source" where
  "createNewGuid g =
     (case randomBytes 16 g of
        (random, g') \<Rightarrow>
          (let buffer = random[6 := (random ! 6 AND 0x0f) OR 0x40];
               buffer = buffer[8 := (buffer ! 8 AND 0x3f) OR 0x80];
               h = hex buffer
           in (slice 0 8 h @ ''-'' @ slice 8 12 h @ ''-'' @ slice 12 16 h @ ''-''
               @ slice 16 20 h @ ''-'' @ slice 20 32 h, g')))"

text \<open>\<open>xs.join(" ")\<close>.\<close>

fun join_space :: "string list \<Rightarrow> string" where
  "join_space [] = []"
| "join_space [x] = x"
| "join_space (x # y # ys) = x @ '' '' @ join_space (y # ys)"

text \<open>\<open>v || d\<close> for an optional string.\<close>

definition or_default :: "string option \<Rightarrow> string \<Rightarrow> string" where
  "or_default v d = (case v of None \<Rightarrow> d | Some s \<Rightarrow> if s = [] then d else s)"

definition default_scopes :: "string list" where
  "default_scopes = [''service::outlook.office.com::MBI_SSL'', ''openid'', ''profile'', ''offline_access'']"

definition scope_string :: "auth_config \<Rightarrow> string" where
  "scope_string config = join_space (case scopes config of None \<Rightarrow> default_scopes | Some xs \<Rightarrow> xs)"

definition createMicrosoftAuthUrl :: "auth_config \<Rightarrow> random_source \<Rightarrow> auth_request" where
  "createMicrosoftAuthUrl config random =
     (let (nonce, g1) = createNewGuid random;
          (correlationId, g2) = createNewGuid g1;
          (id, g3) = createNewGuid g2;
          msalInternalState =
            ''{\"id\":\"'' @ id
            @ ''\",\"meta\":{\"interactionType\":\"''
            @ (if prompt config = Some ''none'' then ''silent'' else ''redirect'') @ ''\"}}'';
          state = base64 (utf8 msalInternalState);
          codeVerifier = base64UrlEncode (fst (randomBytes 32 g3));
          codeChallenge = base64UrlEncode (sha256 (utf8 codeVerifier));
          paramsObject =
            [(''client_id'', clientId config),
             (''response_type'', ''code''),
             (''redirect_uri'', redirectUri config),
             (''scope'', scope_string config),
             (''state'', state),
             (''nonce'', nonce),
             (''prompt'', or_default (prompt config) ''none''),
             (''code_challenge'', codeChallenge),
             (''code_challenge_method'', ''S256''),
             (''response_mode'', or_default (response_mode config) ''fragment''),
             (''client-request-id'', correlationId),
             (''x-client-SKU'', or_default (x_client_SKU config) ''msal.js.browser''),
             (''x-client-VER'', or_default (x_client_VER config) ''4.14.0''),
             (''client_info'', ''1'')]
            @ (case loginHint config of
                 None \<Rightarrow> []
               | Some hint \<Rightarrow>
                   if hint = [] then []
                   else [(''login_hint'', hint), (''X-AnchorMailbox'', ''UPN:'' @ hint)])
      in \<lparr>authEndpoint = authority config @ ''/oauth2/v2.0/authorize'',
          paramsObject = paramsObject,
          codeVerifier = codeVerifier,
          state = state,
          nonce = nonce,
          correlationId = correlationId,
          requestScopes = scope_string config\<rparr>)"

text \<open>The three replacements of \<open>base64UrlEncode\<close> on one character.\<close>

definition url_of_std :: "char \<Rightarrow> char" where
  "url_of_std x =
     (let y = (if x = CHR ''+'' then CHR ''-'' else x) in if y = CHR ''/'' then CHR ''_'' else y)"

section \<open>Concrete inputs\<close>

subsection \<open>Sessions\<close>


definition session_sample :: "jsval list HttpSession" where
  "session_sample =
     \<lparr>jar = [JObj [(''key'', JStr ''MSPAuth''), (''value'', JStr ''t0k''),
                    (''domain'', JStr ''live.com''), (''path'', JStr ''/'')]],
      metadata = Some [(''mailboxValue'', JStr ''0003@84df9e7f''),
                       (''outlookTokensExpiry'', JNum 1762000000000)],
      proto = ObjectPrototype\<rparr>"

definition double_wrapped :: "jsval \<Rightarrow> jsval \<Rightarrow> jsval" where
  "double_wrapped c m = JObj [(''cookies'', JObj [(''cookies'', c), (''metadata'', m)])]"

subsection \<open>Responses\<close>

definition resp_301_home :: response where
  "resp_301_home =
     \<lparr>status = 301, location = Some ''https://account.live.com/'', html = [],
      serverData = None, fmHF = None, title = []\<rparr>"

definition resp_locked_and_kmsi :: response where
  "resp_locked_and_kmsi =
     \<lparr>status = 200, location = None,
      html = ''<a href=\"https://account.live.com/Abuse?mkt=EN\">identity/confirm</a>'',
      serverData = Some [(''sSigninName'', JStr ''a@outlook.com''), (''sFTTag'', JStr ''<input>'')],
      fmHF = None, title = ''Sign in''\<rparr>"

subsection \<open>Login attempts\<close>

definition flow0 :: flow where
  "flow0 = \<lparr>requests = [], analysed = [], reentries = 0, lastUrl = JNull, lastResponse = None,
            flowToken = JNull, loginUrl = JStr ''https://login.live.com/'', outlook = None\<rparr>"

definition creds0 :: credentials where
  "creds0 = \<lparr>email = ''user@outlook.com'', password = ''secret''\<rparr>"

text \<open>
  An environment from the answers to the HTTP calls, the handler and the query-string
  reader; the other parts are fixed.
\<close>

definition env_of ::
  "(request list \<Rightarrow> request \<Rightarrow> js_error + response) \<Rightarrow>
   (bool \<Rightarrow> response \<Rightarrow> jsval \<Rightarrow> (js_error + analysis) \<times> bool) \<Rightarrow>
   (string \<Rightarrow> (string \<Rightarrow> string option) option) \<Rightarrow> env" where
  "env_of cl an sp =
     \<lparr>client = cl, analyzeRedirect = an, flowTokenOf = (\<lambda>v. JStr ''-DflowToken''),
      handlePrivacyNotice =
        (\<lambda>st. (Inl (AuthError ''Could not extract privacy notice data'' ''PRIVACY_NOTICE''), st)),
      authUrl = (\<lambda>n. JStr ''https://login.microsoftonline.com/consumers/oauth2/v2.0/authorize''),
      resolveUrl = (\<lambda>l b. Some l),
      searchParams = sp,
      exchangeCode =
        (\<lambda>code log. (Inl RequestFailed,
                      [POST (JStr ''https://login.microsoftonline.com/consumers/oauth2/v2.0/token'')
                         [(''code'', code)]]))\<rparr>"

definition resp_302_next :: response where
  "resp_302_next =
     \<lparr>status = 302, location = Some ''https://login.live.com/next'', html = [],
      serverData = None, fmHF = None, title = []\<rparr>"

text \<open>
  A handler with the first and the last rules of \<open>EnhancedRedirectHandler\<close>: a 302 or 301
  with a location is an HTTP redirect to it, another page is final when its status is 200
  and unknown otherwise.
\<close>

definition analyze_http_redirect ::
  "bool \<Rightarrow> response \<Rightarrow> jsval \<Rightarrow> (js_error + analysis) \<times> bool" where
  "analyze_http_redirect h r u =
     (case location r of
        Some (x # l) \<Rightarrow>
          if status r = 302 \<or> status r = 301
          then (Inr \<lparr>rtype = HTTP_REDIRECT, url = JStr (x # l), payload = []\<rparr>, h)
          else if status r = 200 then (Inr \<lparr>rtype = FINAL_PAGE, url = JUndefined, payload = []\<rparr>, h)
          else (Inr \<lparr>rtype = UNKNOWN, url = JUndefined, payload = []\<rparr>, h)
      | _ \<Rightarrow>
          if status r = 200 then (Inr \<lparr>rtype = FINAL_PAGE, url = JUndefined, payload = []\<rparr>, h)
          else (Inr \<lparr>rtype = UNKNOWN, url = JUndefined, payload = []\<rparr>, h))"

text \<open>The step that the chain of the example repeats.\<close>

definition step_next :: "analysis \<times> response" where
  "step_next =
     (\<lparr>rtype = HTTP_REDIRECT, url = JStr ''https://login.live.com/next'', payload = []\<rparr>,
      resp_302_next)"

definition analyze_final ::
  "bool \<Rightarrow> response \<Rightarrow> jsval \<Rightarrow> (js_error + analysis) \<times> bool" where
  "analyze_final h r u = (Inr \<lparr>rtype = FINAL_PAGE, url = JUndefined, payload = []\<rparr>, h)"

definition env_redirect_forever :: env where
  "env_redirect_forever = env_of (\<lambda>log q. Inr resp_302_next) analyze_http_redirect (\<lambda>s. None)"

definition resp_blank :: response where
  "resp_blank =
     \<lparr>status = 200, location = None, html = ''<html><body>Service unavailable</body></html>'',
      serverData = None, fmHF = None, title = []\<rparr>"

definition env_blank_page :: env where
  "env_blank_page = env_of (\<lambda>log q. Inr resp_blank) analyze_final (\<lambda>s. None)"

text \<open>
  A final redirect whose fragment has an empty \<open>code\<close> and no \<open>error\<close>, and one with
  \<open>error=interaction_required\<close>.
\<close>

definition resp_empty_code :: response where
  "resp_empty_code =
     \<lparr>status = 302,
      location = Some ''https://outlook.live.com/mail/oauthRedirect.html#code=&state=abc'',
      html = [], serverData = None, fmHF = None, title = []\<rparr>"

definition resp_interaction_required :: response where
  "resp_interaction_required =
     \<lparr>status = 302,
      location = Some ''https://outlook.live.com/mail/oauthRedirect.html#error=interaction_required'',
      html = [], serverData = None, fmHF = None, title = []\<rparr>"

definition fragment_params :: "string \<Rightarrow> (string \<Rightarrow> string option) option" where
  "fragment_params s =
     (if s = ''https://outlook.live.com/mail/oauthRedirect.html?code=&state=abc''
      then Some (\<lambda>k. if k = ''code'' then Some [] else if k = ''state'' then Some ''abc'' else None)
      else if s = ''https://outlook.live.com/mail/oauthRedirect.html?error=interaction_required''
      then Some (\<lambda>k. if k = ''error'' then Some ''interaction_required'' else None)
      else None)"

definition env_empty_code :: env where
  "env_empty_code = env_of (\<lambda>log q. Inr resp_empty_code) analyze_final fragment_params"

definition env_interaction_required :: env where
  "env_interaction_required =
     env_of (\<lambda>log q. Inr resp_interaction_required) analyze_final fragment_params"

text \<open>
  The same server, but the call to the login endpoint fails; and the same server with
  the handler above, for which the page that answers the re-entry is unknown.
\<close>

definition env_reentry_fails :: env where
  "env_reentry_fails =
     env_of (\<lambda>log q. if q = GET login_reentry_url then Inl RequestFailed
                       else Inr resp_interaction_required)
       analyze_final fragment_params"

definition resp_no_content :: response where
  "resp_no_content =
     \<lparr>status = 204, location = None, html = [], serverData = None, fmHF = None, title = []\<rparr>"

definition env_reentry_unknown :: env where
  "env_reentry_unknown =
     env_of (\<lambda>log q. if q = GET login_reentry_url then Inr resp_no_content
                       else Inr resp_interaction_required)
       analyze_http_redirect fragment_params"

subsection \<open>Mail\<close>

definition now0 :: int where
  "now0 = 1762000000000"

definition provider_address :: string where
  "provider_address = ''account-security-noreply@accountprotection.microsoft.com''"

definition conv_fresh :: conversation where
  "conv_fresh =
     \<lparr>ConversationTopic = Some ''Your Microsoft account security code'',
      senderAddress = Some provider_address,
      LastDeliveryTime = At (now0 - 60000),
      Preview = Some ''Security code: 482913''\<rparr>"

definition conv_older :: conversation where
  "conv_older =
     \<lparr>ConversationTopic = Some ''Microsoft account security code'',
      senderAddress = Some provider_address,
      LastDeliveryTime = At (now0 - 240000),
      Preview = Some ''Security code: 111111''\<rparr>"

definition conv_stale :: conversation where
  "conv_stale =
     \<lparr>ConversationTopic = Some ''Microsoft account security code'',
      senderAddress = Some provider_address,
      LastDeliveryTime = At (now0 - 480000),
      Preview = Some ''Security code: 222222''\<rparr>"

definition conv_digest :: conversation where
  "conv_digest =
     \<lparr>ConversationTopic = Some ''Weekly digest'',
      senderAddress = Some ''news@example.com'',
      LastDeliveryTime = At (now0 - 1000),
      Preview = Some ''Sale 50000''\<rparr>"

text \<open>
  A sorting procedure for the examples: straight insertion, which puts an element before
  the first one that the comparator places after it.
\<close>

fun insert_by :: "('a \<Rightarrow> 'a \<Rightarrow> int) \<Rightarrow> 'a \<Rightarrow> 'a list \<Rightarrow> 'a list" where
  "insert_by f x [] = [x]"
| "insert_by f x (y # ys) = (if f x y < 0 then x # y # ys else y # insert_by f x ys)"

definition insertion_engine :: "('a \<Rightarrow> 'a \<Rightarrow> int) \<Rightarrow> 'a list \<Rightarrow> 'a list" where
  "insertion_engine f xs = foldl (\<lambda>sorted x. insert_by f x sorted) [] xs"

definition conv_no_time :: conversation where
  "conv_no_time =
     \<lparr>ConversationTopic = Some ''Verify your account'',
      senderAddress = Some ''noreply@microsoft.com'',
      LastDeliveryTime = NoTime,
      Preview = Some ''Use code 073215 to verify''\<rparr>"

subsection \<open>Authorization requests\<close>

text \<open>The octets of the example of RFC 7636, appendix B, and the client profile of the code.\<close>

definition rfc_octets :: "byte list" where
  "rfc_octets = [116, 24, 223, 180, 151, 153, 224, 37, 79, 250, 96, 125, 216, 173, 187, 186,
                 22, 212, 37, 77, 105, 214, 191, 240, 91, 88, 5, 88, 83, 132, 141, 121]"

definition msal_config :: auth_config where
  "msal_config =
     \<lparr>clientId = ''9199bf20-a13f-4107-85dc-02114787ef48'',
      authority = ''https://login.microsoftonline.com/consumers'',
      redirectUri = ''https://outlook.live.com/mail/oauthRedirect.html'',
      loginHint = None,
      scopes = Some default_scopes,
      prompt = Some ''none'',
      response_mode = None, x_client_SKU = None, x_client_VER = None\<rparr>"

text \<open>
  A generator whose first forty-eight bytes, those of the three identifiers, are zero and
  whose next thirty-two are the octets of the example.
\<close>

definition random_rfc :: random_source where
  "random_rfc i = (if 48 \<le> i \<and> i < 80 then rfc_octets ! (i - 48) else 0)"

section \<open>Verified properties\<close>

subsection \<open>Session store\<close>







text \<open>
  A name that the metadata object inherits is reported present and reads as the
  built-in function, although nothing was stored under it; once the prototype is gone, a
  value stored under \<open>__proto__\<close> is an own property like any other.
\<close>

lemma inherited_name_present:
  "getMetadata ''toString'' session_sample = Builtin ''Object.prototype.toString''
   \<and> hasMetadata ''toString'' session_sample = JBool True
   \<and> hasMetadata ''constructor'' (removeMetadata ''constructor'' session_sample) = JBool True
   \<and> hasMetadata ''__proto__''
        (setMetadata ''__proto__'' JNull (setMetadata ''__proto__'' JNull session_sample))
       = JBool True"
  by (simp add: setMetadata_def put_property_def session_sample_def inherited_def
      object_prototype_property_def object_prototype_names_def hasMetadata_def getMetadata_def
      get_property_def or_null_def removeMetadata_def)




text \<open>
  C3. On the double-wrapped shape \<open>{cookies: {cookies: c, metadata: m}}\<close> the import
  takes the old-format branch: the outer object goes to \<open>fromJSON\<close> as it is and the
  metadata is the empty object, so neither the inner jar nor \<open>m\<close> is recovered.
\<close>

theorem importCookieJar_double_wrapped:
  "importCookieJar fromJSON (Some (double_wrapped c m))
     = (case fromJSON (double_wrapped c m) of None \<Rightarrow> None | Some j \<Rightarrow> Some (j, JObj []))"
  by (simp add: importCookieJar_def double_wrapped_def own_prop_def)

text \<open>With a deserialiser that wants a \<open>cookies\<close> array, the result is \<open>null\<close>.\<close>

lemma importCookieJar_double_wrapped_rejected:
  "importCookieJar jar_fromJSON
     (Some (double_wrapped (JObj (jar_toJSON (jar session_sample)))
              (JObj (getAllMetadata session_sample)))) = None"
  by (simp add: importCookieJar_def double_wrapped_def own_prop_def jar_fromJSON_def)

text \<open>The two shapes the import does read: the current wrapper and the raw jar.\<close>

lemma importCookieJar_wrapper:
  "truthy c \<Longrightarrow> truthy m \<Longrightarrow>
   importCookieJar fromJSON (Some (JObj [(''cookies'', c), (''metadata'', m)]))
     = (case fromJSON c of None \<Rightarrow> None | Some j \<Rightarrow> Some (j, m))"
  by (simp add: importCookieJar_def own_prop_def)

lemma importCookieJar_raw_jar:
  "importCookieJar jar_fromJSON (Some (JObj (jar_toJSON cs))) = Some (cs, JObj [])"
  by (simp add: importCookieJar_def own_prop_def jar_fromJSON_def jar_toJSON_def)

subsection \<open>Response classifier\<close>

lemma privacy_notice_form_unfold:
  "(case fmHF r of None \<Rightarrow> False | Some None \<Rightarrow> False
    | Some (Some a) \<Rightarrow> includes_str a ''privacynotice.account.microsoft.com'')
   = privacy_notice_form r"
  by (simp add: privacy_notice_form_def split: option.splits)

lemma first_match_tail:
  "first_match (drop 2 (precedence f)) r =
    (if includes_str (html r) ''/Abuse'' then ACCOUNT_LOCKED
     else if includes_str (html r) ''identity/confirm'' then REAUTH_NEEDED
     else if includes_str (html r) ''interrupt/passkey'' then PASSKEY_INTERRUPT
     else if includes_str (html r) ''proofs/Add'' then NEED_TO_ADD_ALT
     else if includes_str (html r) ''/tou/accrue'' then MICROSOFT_UPDATE_TERM
     else if privacy_notice_form r then PRIVACY_NOTICE
     else if truthy (sd r ''sSigninName'') then KMSI_PAGE_OK
     else if truthy (sd r ''sFTTag'') then INITIAL_PAGE_OK
     else if includes_str (title r) ''Microsoft account | Home'' then MICROSOFT_HOME_PAGE
     else UNKNOWN_STATE)"
  unfolding precedence_def by simp

lemma first_match_head:
  "first_match (precedence f) r =
    (if redirect_to_home f r then MICROSOFT_HOME_PAGE
     else if error_text_incorrect r then INVALID_CREDENTIALS
     else first_match (drop 2 (precedence f)) r)"
  unfolding precedence_def by simp

lemma redirect_check:
  "\<not> (status r = 302 \<and> location r = None) \<Longrightarrow>
   (if status r = 302
    then (case location r of
            None \<Rightarrow> Inl TypeError
          | Some l \<Rightarrow> Inr (includes_str l ''account.live.com''))
    else Inr False) = Inr (redirect_to_home (\<lambda>n. n = 302) r)"
  by (cases "location r") (auto simp: redirect_to_home_def)

text \<open>
  C1 (as amended). On every response on which it returns, \<open>getAuthState\<close> returns the
  state of the first marker that holds in the order of the specification, the redirect
  marker being a status 302 whose \<open>Location\<close> contains \<open>account.live.com\<close>; when no
  marker holds the state is \<open>unknown\<close>.
\<close>

theorem getAuthState_precedence:
  assumes nt: "\<not> classifier_throws r"
  shows "getAuthState r = Inr (first_match (precedence (\<lambda>n. n = 302)) r)"
proof -
  have loc: "\<not> (status r = 302 \<and> location r = None)"
    using nt by (simp add: classifier_throws_def)
  show ?thesis
  proof (cases "redirect_to_home (\<lambda>n. n = 302) r")
    case True
    then show ?thesis
      unfolding getAuthState_def redirect_check [OF loc] first_match_head by simp
  next
    case False
    with nt obtain b where b: "opt_includes (sd r ''sErrTxt'') ''incorrect'' = Inr b"
      by (cases "opt_includes (sd r ''sErrTxt'') ''incorrect''")
         (auto simp: classifier_throws_def)
    show ?thesis
      unfolding getAuthState_def redirect_check [OF loc] first_match_head first_match_tail
        privacy_notice_form_unfold
      using False b by (cases b) (simp_all add: error_text_incorrect_def)
  qed
qed

text \<open>
  A page that carries the abuse marker, the identity-confirmation marker, a signed-in
  user name and a flow token at once: the earliest of them, the abuse marker, decides.
\<close>

theorem getAuthState_precedence_witness:
  "\<not> classifier_throws resp_locked_and_kmsi
   \<and> includes_str (html resp_locked_and_kmsi) ''identity/confirm''
   \<and> truthy (sd resp_locked_and_kmsi ''sSigninName'')
   \<and> truthy (sd resp_locked_and_kmsi ''sFTTag'')
   \<and> getAuthState resp_locked_and_kmsi = Inr ACCOUNT_LOCKED"
proof -
  have nt: "\<not> classifier_throws resp_locked_and_kmsi"
    by (simp add: classifier_throws_def resp_locked_and_kmsi_def sd_def own_prop_def)
  have fm: "first_match (precedence (\<lambda>n. n = 302)) resp_locked_and_kmsi = ACCOUNT_LOCKED"
    by (simp add: first_match_head first_match_tail redirect_to_home_def
        error_text_incorrect_def resp_locked_and_kmsi_def sd_def own_prop_def)
  show ?thesis
    using nt fm getAuthState_precedence [OF nt]
    by (simp add: resp_locked_and_kmsi_def sd_def own_prop_def)
qed

text \<open>
  C1 as stated fails: a 301 redirect to the account home is a 30x redirect to that path,
  yet the classifier, which tests for 302 alone, reports \<open>unknown\<close>.
\<close>

theorem getAuthState_30x_counterexample:
  "getAuthState resp_301_home = Inr UNKNOWN_STATE
   \<and> first_match (precedence (\<lambda>n. 300 \<le> n \<and> n < 400)) resp_301_home = MICROSOFT_HOME_PAGE"
  by (simp add: getAuthState_def resp_301_home_def sd_def first_match_head
      redirect_to_home_def)

subsection \<open>Redirect-driving loop\<close>

text \<open>
  Whatever the environment, \<open>k\<close> iterations hand at most \<open>k\<close> responses to the handler and
  make at most one call after each.
\<close>

lemma redirect_loop_bound:
  "redirect_loop E c k cur h st = (res, st') \<Longrightarrow>
     \<exists>qs rs. requests st' = requests st @ qs \<and> analysed st' = analysed st @ rs
       \<and> length qs \<le> length rs \<and> length rs \<le> k \<and> reentries st' = reentries st"
proof (induction k arbitrary: cur h st)
  case 0
  then show ?case by simp
next
  case (Suc k)
  obtain ar h' where an: "analyzeRedirect E h cur (lastUrl st) = (ar, h')"
    by (cases "analyzeRedirect E h cur (lastUrl st)")
  show ?case
  proof (cases ar)
    case (Inl e)
    with Suc.prems an show ?thesis by auto
  next
    case (Inr a)
    let ?st1 = "st\<lparr>analysed := analysed st @ [cur]\<rparr>"
    have go: "\<exists>qs rs. requests st' = requests st @ qs \<and> analysed st' = analysed st @ rs
         \<and> length qs \<le> length rs \<and> length rs \<le> Suc k \<and> reentries st' = reentries st"
      if run: "(case http E q s1 of (Inl e, st2) \<Rightarrow> (Inl e, st2)
                 | (Inr r, st2) \<Rightarrow> redirect_loop E c k r h' st2) = (res, st')"
        and s1: "analysed s1 = analysed st @ [cur]" "requests s1 = requests st"
                "reentries s1 = reentries st"
      for q and s1 :: flow
    proof (cases "client E (requests s1) q")
      case (Inl e)
      with run s1 have "st' = s1\<lparr>requests := requests st @ [q]\<rparr>"
        by (simp add: http_def)
      then have "requests st' = requests st @ [q] \<and> analysed st' = analysed st @ [cur]
          \<and> reentries st' = reentries st"
        using s1 by simp
      then show ?thesis by auto
    next
      case (Inr r)
      with run have "redirect_loop E c k r h' (s1\<lparr>requests := requests s1 @ [q]\<rparr>) = (res, st')"
        by (simp add: http_def)
      from Suc.IH [OF this] obtain qs rs where
        "requests st' = (requests s1 @ [q]) @ qs" "analysed st' = analysed s1 @ rs"
        "length qs \<le> length rs" "length rs \<le> k" "reentries st' = reentries s1"
        by auto
      then have "requests st' = requests st @ (q # qs) \<and> analysed st' = analysed st @ (cur # rs)
          \<and> length (q # qs) \<le> length (cur # rs) \<and> length (cur # rs) \<le> Suc k
          \<and> reentries st' = reentries st"
        using s1 by simp
      then show ?thesis by blast
    qed
    have stop: "\<exists>qs rs. requests st' = requests st @ qs \<and> analysed st' = analysed st @ rs
         \<and> length qs \<le> length rs \<and> length rs \<le> Suc k \<and> reentries st' = reentries st"
      if "requests st' = requests st" "analysed st' = analysed st @ [cur]"
         "reentries st' = reentries st"
      using that by (intro exI [of _ "[]"] exI [of _ "[cur]"]) simp
    from Suc.prems an Inr show ?thesis
    proof (cases "rtype a")
      case FINAL_PAGE
      with Suc.prems an Inr show ?thesis by (intro stop) (auto simp: Let_def)
    next
      case UNKNOWN
      with Suc.prems an Inr show ?thesis by (intro stop) (auto simp: Let_def)
    next
      case HTTP_REDIRECT
      with Suc.prems an Inr show ?thesis
        by (intro go [of "GET (url a)" "?st1\<lparr>lastUrl := url a\<rparr>"]) (simp_all add: Let_def)
    next
      case MANUAL_REDIRECT
      with Suc.prems an Inr show ?thesis
        by (intro go [of "GET (url a)" "?st1\<lparr>lastUrl := url a\<rparr>"]) (simp_all add: Let_def)
    next
      case MSAL_REDIRECT
      with Suc.prems an Inr show ?thesis
        by (intro go [of "GET (url a)" "?st1\<lparr>lastUrl := url a\<rparr>"]) (simp_all add: Let_def)
    next
      case AUTO_SUBMIT
      with Suc.prems an Inr show ?thesis
        by (intro go [of "POST (url a) (payload a)" "?st1\<lparr>lastUrl := url a\<rparr>"])
           (simp_all add: Let_def)
    next
      case ENTER_PASSWORD
      with Suc.prems an Inr show ?thesis
        by (intro go [of "POST (url a) (password_form c (payload a))" ?st1])
           (simp_all add: Let_def)
    qed
  qed
qed

text \<open>
  Along a chain of redirects the loop makes the calls that the handler indicates, one
  after each response of the chain, and ends on the error once the chain is as long as
  the bound.
\<close>

lemma redirect_loop_exceeds:
  "redirect_chain E c cur h (lastUrl st) (requests st) steps \<Longrightarrow>
   \<exists>u. redirect_loop E c (length steps) cur h st
     = (Inl (AuthError ''Exceeded maximum redirects'' ''REDIRECTS''),
        st\<lparr>requests := requests st @ map (\<lambda>s. indicated_call c (fst s)) steps,
           analysed := analysed st @ butlast (cur # map snd steps),
           lastUrl := u\<rparr>)"
proof (induction steps arbitrary: cur h st)
  case Nil
  have "st = st\<lparr>requests := requests st, analysed := analysed st, lastUrl := lastUrl st\<rparr>"
    by simp
  then show ?case by (auto intro: exI [of _ "lastUrl st"])
next
  case (Cons s steps)
  obtain a r where s: "s = (a, r)" by (cases s)
  obtain ar h' where an: "analyzeRedirect E h cur (lastUrl st) = (ar, h')"
    by (cases "analyzeRedirect E h cur (lastUrl st)")
  from Cons.prems an s have ar: "ar = Inr a" and d: "is_dispatch (rtype a)"
    and cl: "client E (requests st) (indicated_call c a) = Inr r"
    and ch: "redirect_chain E c r h' (next_url (lastUrl st) a)
               (requests st @ [indicated_call c a]) steps"
    by (auto split: sum.splits)
  let ?st2 = "st\<lparr>analysed := analysed st @ [cur], lastUrl := next_url (lastUrl st) a,
                  requests := requests st @ [indicated_call c a]\<rparr>"
  have step: "redirect_loop E c (Suc (length steps)) cur h st
      = redirect_loop E c (length steps) r h' ?st2"
    using d cl
    by (cases "rtype a")
       (simp_all add: an ar Let_def is_dispatch_def http_def indicated_call_def next_url_def)
  from ch have "redirect_chain E c r h' (lastUrl ?st2) (requests ?st2) steps" by simp
  from Cons.IH [OF this] obtain u where
    "redirect_loop E c (length steps) r h' ?st2
     = (Inl (AuthError ''Exceeded maximum redirects'' ''REDIRECTS''),
        ?st2\<lparr>requests := requests ?st2 @ map (\<lambda>s. indicated_call c (fst s)) steps,
             analysed := analysed ?st2 @ butlast (r # map snd steps),
             lastUrl := u\<rparr>)"
    by blast
  with step s show ?case
    by (auto intro!: exI [of _ u])
qed

text \<open>Where every response resolves to another redirect there is a chain of every length.\<close>

lemma always_redirects_chain:
  assumes "always_redirects E initialResponse"
  shows "\<exists>steps. length steps = k
           \<and> redirect_chain E c initialResponse h u log steps"
proof -
  define D where "D r \<longleftrightarrow> (\<forall>h u. \<exists>a h'. analyzeRedirect E h r u = (Inr a, h') \<and> is_dispatch (rtype a))"
    for r
  from assms have answered: "\<exists>r. client E log q = Inr r" for log q
    unfolding always_redirects_def by (elim conjE) (rule spec, rule spec)
  from assms have "\<forall>r h u. r = initialResponse \<or> (\<exists>log q. client E log q = Inr r) \<longrightarrow>
         (\<exists>a h'. analyzeRedirect E h r u = (Inr a, h') \<and> is_dispatch (rtype a))"
    unfolding always_redirects_def by (rule conjunct2)
  then have resolved: "\<exists>a h'. analyzeRedirect E h r u = (Inr a, h') \<and> is_dispatch (rtype a)"
    if "r = initialResponse \<or> (\<exists>log q. client E log q = Inr r)" for r h u
    using that by (rule_tac mp, rule_tac spec, rule_tac spec, rule_tac spec)
  have d0: "D initialResponse"
    unfolding D_def by (intro allI resolved) simp
  have served: "\<exists>r. client E log q = Inr r \<and> D r" for log q
  proof -
    from answered obtain r where r: "client E log q = Inr r" by blast
    have "D r"
      unfolding D_def by (intro allI resolved disjI2 exI [of _ log] exI [of _ q]) (rule r)
    with r show ?thesis by blast
  qed
  have "D cur \<Longrightarrow> \<exists>steps. length steps = k \<and> redirect_chain E c cur h u log steps"
    for cur
  proof (induction k arbitrary: cur h u log)
    case 0
    then show ?case by simp
  next
    case (Suc k)
    from Suc.prems obtain a h' where an: "analyzeRedirect E h cur u = (Inr a, h')"
      and d: "is_dispatch (rtype a)"
      unfolding D_def by blast
    from served obtain r where r: "client E log (indicated_call c a) = Inr r" and dr: "D r"
      by blast
    from Suc.IH [OF dr] obtain steps where
      "length steps = k"
      "redirect_chain E c r h' (next_url u a) (log @ [indicated_call c a]) steps"
      by blast
    then have "length ((a, r) # steps) = Suc k
        \<and> redirect_chain E c cur h u log ((a, r) # steps)"
      using an d r by simp
    then show ?case by blast
  qed
  with d0 show ?thesis by blast
qed

text \<open>
  C4. The loop of \<open>_followRedirects\<close> is the recursion of \<open>redirect_loop\<close> on the
  iterations left, so it ends on every input; with the bound 20 of every call it hands at
  most 20 responses to the handler and makes at most one HTTP call after each. Along a
  response sequence in which each of 20 responses resolves to another redirect it makes
  the 20 calls that the handler indicates, analyses the 20 responses and then raises the
  redirect-loop error; so it does wherever the first response and every response of the
  server resolve to another redirect.
\<close>

theorem followRedirects_bounded:
  "(case followRedirects E c initialResponse maxRedirects_default st of
      (res, st') \<Rightarrow>
        (\<exists>qs rs. requests st' = requests st @ qs \<and> analysed st' = analysed st @ rs
           \<and> length qs \<le> length rs \<and> length rs \<le> 20)
        \<and> (\<forall>steps. length steps = 20
              \<and> redirect_chain E c initialResponse False (lastUrl st) (requests st) steps \<longrightarrow>
              res = Inl (AuthError ''Exceeded maximum redirects'' ''REDIRECTS'')
              \<and> requests st' = requests st @ map (\<lambda>s. indicated_call c (fst s)) steps
              \<and> analysed st' = analysed st @ butlast (initialResponse # map snd steps))
        \<and> (always_redirects E initialResponse \<longrightarrow>
              res = Inl (AuthError ''Exceeded maximum redirects'' ''REDIRECTS'')
              \<and> length (requests st') = length (requests st) + 20
              \<and> length (analysed st') = length (analysed st) + 20))"
proof -
  obtain res st' where r: "followRedirects E c initialResponse maxRedirects_default st = (res, st')"
    by (cases "followRedirects E c initialResponse maxRedirects_default st")
  then have l: "redirect_loop E c 20 initialResponse False st = (res, st')"
    by (simp add: followRedirects_def maxRedirects_default_def)
  from redirect_loop_bound [OF l]
  have b: "\<exists>qs rs. requests st' = requests st @ qs \<and> analysed st' = analysed st @ rs
           \<and> length qs \<le> length rs \<and> length rs \<le> 20"
    by blast
  have ch: "res = Inl (AuthError ''Exceeded maximum redirects'' ''REDIRECTS'')
              \<and> requests st' = requests st @ map (\<lambda>s. indicated_call c (fst s)) steps
              \<and> analysed st' = analysed st @ butlast (initialResponse # map snd steps)"
    if "length steps = 20"
      and "redirect_chain E c initialResponse False (lastUrl st) (requests st) steps"
    for steps
    using redirect_loop_exceeds [OF that(2)] l that(1) by auto
  have al: "res = Inl (AuthError ''Exceeded maximum redirects'' ''REDIRECTS'')
              \<and> length (requests st') = length (requests st) + 20
              \<and> length (analysed st') = length (analysed st) + 20"
    if "always_redirects E initialResponse"
  proof -
    from always_redirects_chain [OF that, of 20 c False "lastUrl st" "requests st"]
    obtain steps where s: "length steps = 20"
      "redirect_chain E c initialResponse False (lastUrl st) (requests st) steps"
      by blast
    from s(1) have "steps \<noteq> []" by auto
    with ch [OF s] s(1) show ?thesis by simp
  qed
  show ?thesis
    unfolding r prod.case
  proof (intro conjI allI impI)
    show "\<exists>qs rs. requests st' = requests st @ qs \<and> analysed st' = analysed st @ rs
           \<and> length qs \<le> length rs \<and> length rs \<le> 20"
      by (rule b)
  next
    fix steps
    assume "length steps = 20
      \<and> redirect_chain E c initialResponse False (lastUrl st) (requests st) steps"
    then have "res = Inl (AuthError ''Exceeded maximum redirects'' ''REDIRECTS'')
              \<and> requests st' = requests st @ map (\<lambda>s. indicated_call c (fst s)) steps
              \<and> analysed st' = analysed st @ butlast (initialResponse # map snd steps)"
      using ch by blast
    then show "res = Inl (AuthError ''Exceeded maximum redirects'' ''REDIRECTS'')"
      "requests st' = requests st @ map (\<lambda>s. indicated_call c (fst s)) steps"
      "analysed st' = analysed st @ butlast (initialResponse # map snd steps)"
      by blast+
  next
    assume "always_redirects E initialResponse"
    from al [OF this]
    show "res = Inl (AuthError ''Exceeded maximum redirects'' ''REDIRECTS'')"
      "length (requests st') = length (requests st) + 20"
      "length (analysed st') = length (analysed st) + 20"
      by blast+
  qed
qed

lemma always_redirects_forever: "always_redirects env_redirect_forever resp_302_next"
  by (auto simp: always_redirects_def env_redirect_forever_def env_of_def
      analyze_http_redirect_def resp_302_next_def is_dispatch_def)

theorem followRedirects_bounded_witness:
  "always_redirects env_redirect_forever resp_302_next
   \<and> length (replicate 20 step_next) = 20
   \<and> redirect_chain env_redirect_forever creds0 resp_302_next False (lastUrl flow0)
        (requests flow0) (replicate 20 step_next)
   \<and> followRedirects env_redirect_forever creds0 resp_302_next maxRedirects_default flow0
     = (Inl (AuthError ''Exceeded maximum redirects'' ''REDIRECTS''),
        flow0\<lparr>requests := replicate 20 (GET (JStr ''https://login.live.com/next'')),
              analysed := replicate 20 resp_302_next,
              lastUrl := JStr ''https://login.live.com/next''\<rparr>)
   \<and> fst (analyzeRedirect env_redirect_forever False resp_blank JNull)
       = Inr \<lparr>rtype = FINAL_PAGE, url = JUndefined, payload = []\<rparr>"
proof -
  have ch: "redirect_chain env_redirect_forever creds0 resp_302_next False (lastUrl flow0)
        (requests flow0) (replicate 20 step_next)"
    by (simp add: eval_nat_numeral env_redirect_forever_def env_of_def
        analyze_http_redirect_def resp_302_next_def step_next_def is_dispatch_def
        indicated_call_def next_url_def flow0_def)
  have ev: "followRedirects env_redirect_forever creds0 resp_302_next maxRedirects_default flow0
     = (Inl (AuthError ''Exceeded maximum redirects'' ''REDIRECTS''),
        flow0\<lparr>requests := replicate 20 (GET (JStr ''https://login.live.com/next'')),
              analysed := replicate 20 resp_302_next,
              lastUrl := JStr ''https://login.live.com/next''\<rparr>)"
    by (simp add: followRedirects_def maxRedirects_default_def eval_nat_numeral
        env_redirect_forever_def env_of_def analyze_http_redirect_def resp_302_next_def
        http_def flow0_def)
  have fin: "fst (analyzeRedirect env_redirect_forever False resp_blank JNull)
       = Inr \<lparr>rtype = FINAL_PAGE, url = JUndefined, payload = []\<rparr>"
    by (simp add: env_redirect_forever_def env_of_def analyze_http_redirect_def resp_blank_def)
  show ?thesis
    using always_redirects_forever ch ev fin
      followRedirects_bounded [where E = env_redirect_forever and c = creds0
        and initialResponse = resp_302_next and st = flow0]
    by simp
qed

subsection \<open>Initial page\<close>

text \<open>
  A state other than the four that \<open>_getInitialPage\<close> handles makes it throw, and its own
  \<open>catch\<close> takes the error: the function returns \<open>undefined\<close>.
\<close>

lemma getInitialPage_swallows:
  assumes "client E (requests st) (GET (loginUrl st)) = Inr r"
      and "getAuthState r = Inr s"
      and "s \<noteq> MICROSOFT_HOME_PAGE" "s \<noteq> MICROSOFT_UPDATE_TERM" "s \<noteq> PRIVACY_NOTICE" "s \<noteq> INITIAL_PAGE_OK"
  shows "getInitialPage E c (Suc fuel) st
           = Some (None, st\<lparr>requests := requests st @ [GET (loginUrl st)]\<rparr>)"
  using assms by (simp add: http_def)

text \<open>
  C6. On a page that classifies as \<open>unknown\<close>, \<open>_getInitialPage\<close> returns \<open>undefined\<close>
  after its single request: the error it raised does not leave the function, so it
  cannot reach the caller of \<open>login\<close>.
\<close>

theorem getInitialPage_unknown_state_swallowed:
  "getAuthState resp_blank = Inr UNKNOWN_STATE
   \<and> getInitialPage env_blank_page creds0 1 flow0
       = Some (None, flow0\<lparr>requests := [GET (JStr ''https://login.live.com/'')]\<rparr>)"
  by (simp add: getAuthState_def resp_blank_def sd_def env_blank_page_def env_of_def http_def flow0_def)

subsection \<open>Outlook tokens\<close>

lemma oauth_hops_reentries:
  "oauth_hops E k u st = (res, st') \<Longrightarrow> reentries st' = reentries st"
proof (induction k arbitrary: u st)
  case 0
  then show ?case by simp
next
  case (Suc k)
  then show ?case
    by (auto simp: http_def split: sum.splits option.splits if_splits)
qed

lemma followRedirects_reentries:
  "followRedirects E c r m st = (res, st') \<Longrightarrow> reentries st' = reentries st"
  unfolding followRedirects_def by (drule redirect_loop_bound) blast

lemma getOutlookTokens_retried_reentries:
  "reentries (snd (getOutlookTokens E c True st)) = reentries st"
proof -
  obtain res st1 where h: "oauth_hops E 2 (authUrl E (length (requests st))) st = (res, st1)"
    by (cases "oauth_hops E 2 (authUrl E (length (requests st))) st")
  from oauth_hops_reentries [OF h] have r: "reentries st1 = reentries st" .
  show ?thesis
    by (subst getOutlookTokens.simps)
       (auto simp: h r split: sum.splits option.splits prod.splits)
qed

lemma getOutlookTokens_retried_dest:
  "getOutlookTokens E c True s3 = (b, s4) \<Longrightarrow> reentries s4 = reentries s3"
  using getOutlookTokens_retried_reentries [of E c s3] by simp

lemma getOutlookTokens_reentries:
  "reentries (snd (getOutlookTokens E c retry st)) \<le> reentries st + (if retry then 0 else 1)"
proof (cases retry)
  case True
  then show ?thesis by (simp add: getOutlookTokens_retried_reentries)
next
  case False
  obtain res st1 where h: "oauth_hops E 2 (authUrl E (length (requests st))) st = (res, st1)"
    by (cases "oauth_hops E 2 (authUrl E (length (requests st))) st")
  from oauth_hops_reentries [OF h] have r: "reentries st1 = reentries st" .
  show ?thesis
    using False
    by (subst getOutlookTokens.simps)
       (auto simp: h r http_def split: sum.splits option.splits prod.splits
             dest!: followRedirects_reentries getOutlookTokens_retried_dest)
qed

text \<open>
  C9 (as amended). When the final redirect carries no authorization code: if no retry has
  occurred and the redirect carries an \<open>error\<close> parameter, \<open>_getOutlookTokens\<close> makes
  one silent re-entry into the login endpoint; if that call fails, or if the redirect
  loop driven from its answer raises an error, the result is \<open>false\<close> and the acquisition
  is not run again; otherwise the whole acquisition is run once more with \<open>retry\<close> set
  and its result is the result. In every other case of a missing code (a retried
  attempt, or no \<open>error\<close> parameter) the result is \<open>false\<close> at once. No run makes more than
  one re-entry, and a retried run makes none.
\<close>

theorem getOutlookTokens_missing_code:
  assumes hops: "oauth_hops E 2 (authUrl E (length (requests st))) st = (Inr finalResponse, st1)"
      and loc: "location finalResponse = Some l"
      and sp: "searchParams E (replace_hash l) = Some params"
      and nocode: "code_of params = None"
  shows "getOutlookTokens E c retry st =
           (if \<not> retry \<and> \<not> absent (params ''error'')
            then (case http E (GET login_reentry_url) (st1\<lparr>reentries := Suc (reentries st1)\<rparr>) of
                    (Inl e, st2) \<Rightarrow> (False, st2)
                  | (Inr r, st2) \<Rightarrow>
                      (case followRedirects E c r maxRedirects_default st2 of
                         (Inl e, st3) \<Rightarrow> (False, st3)
                       | (Inr u, st3) \<Rightarrow> getOutlookTokens E c True st3))
            else (False, st1))
         \<and> reentries (snd (getOutlookTokens E c retry st))
             \<le> reentries st + (if retry then 0 else 1)
         \<and> reentries (snd (getOutlookTokens E c True st)) = reentries st"
proof -
  have "getOutlookTokens E c retry st =
           (if \<not> retry \<and> \<not> absent (params ''error'')
            then (case http E (GET login_reentry_url) (st1\<lparr>reentries := Suc (reentries st1)\<rparr>) of
                    (Inl e, st2) \<Rightarrow> (False, st2)
                  | (Inr r, st2) \<Rightarrow>
                      (case followRedirects E c r maxRedirects_default st2 of
                         (Inl e, st3) \<Rightarrow> (False, st3)
                       | (Inr u, st3) \<Rightarrow> getOutlookTokens E c True st3))
            else (False, st1))"
    by (subst getOutlookTokens.simps)
       (simp add: hops loc sp nocode split: prod.splits sum.splits)
  then show ?thesis
    using getOutlookTokens_reentries [of E c retry st]
      getOutlookTokens_retried_reentries [of E c st]
    by simp
qed

text \<open>
  The calls of the example: the authorization request, the re-entry into the login
  endpoint, and the authorization request of the retried run.
\<close>

theorem getOutlookTokens_missing_code_witness:
  "oauth_hops env_interaction_required 2
      (authUrl env_interaction_required (length (requests flow0))) flow0
     = (Inr resp_interaction_required,
        flow0\<lparr>requests := [GET (authUrl env_interaction_required 0)]\<rparr>)
   \<and> location resp_interaction_required
       = Some ''https://outlook.live.com/mail/oauthRedirect.html#error=interaction_required''
   \<and> code_of (\<lambda>k. if k = ''error'' then Some ''interaction_required'' else None) = None
   \<and> getOutlookTokens env_interaction_required creds0 False flow0
       = (False, flow0\<lparr>requests := [GET (authUrl env_interaction_required 0),
                                     GET login_reentry_url,
                                     GET (authUrl env_interaction_required 0)],
                        analysed := [resp_interaction_required], reentries := 1,
                        lastResponse := Some resp_interaction_required\<rparr>)"
proof -
  let ?params = "\<lambda>k. if k = ''error'' then Some ''interaction_required'' else None"
  let ?auth = "authUrl env_interaction_required 0"
  have au: "authUrl env_interaction_required n = ?auth" for n
    by (simp add: env_interaction_required_def env_of_def)
  have hops: "oauth_hops env_interaction_required 2
      (authUrl env_interaction_required (length (requests flow0))) flow0
     = (Inr resp_interaction_required, flow0\<lparr>requests := [GET ?auth]\<rparr>)"
    by (simp add: eval_nat_numeral env_interaction_required_def env_of_def http_def
        resp_interaction_required_def flow0_def)
  have loc: "location resp_interaction_required
       = Some ''https://outlook.live.com/mail/oauthRedirect.html#error=interaction_required''"
    by (simp add: resp_interaction_required_def)
  have sp: "searchParams env_interaction_required
      (replace_hash ''https://outlook.live.com/mail/oauthRedirect.html#error=interaction_required'')
      = Some ?params"
    by (simp add: env_interaction_required_def env_of_def fragment_params_def)
  have nocode: "code_of ?params = None"
    by (simp add: code_of_def absent_def)
  have retried: "getOutlookTokens env_interaction_required creds0 True
       (flow0\<lparr>requests := [GET ?auth, GET login_reentry_url],
              analysed := [resp_interaction_required], reentries := 1,
              lastResponse := Some resp_interaction_required\<rparr>)
     = (False, flow0\<lparr>requests := [GET ?auth, GET login_reentry_url, GET ?auth],
                      analysed := [resp_interaction_required], reentries := 1,
                      lastResponse := Some resp_interaction_required\<rparr>)"
    by (subst getOutlookTokens.simps)
       (simp add: eval_nat_numeral env_interaction_required_def env_of_def http_def
          resp_interaction_required_def flow0_def fragment_params_def code_of_def absent_def)
  have reentry: "(case http env_interaction_required (GET login_reentry_url)
                    (flow0\<lparr>requests := [GET ?auth], reentries := Suc 0\<rparr>) of
                    (Inl e, st2) \<Rightarrow> (False, st2)
                  | (Inr r, st2) \<Rightarrow>
                      (case followRedirects env_interaction_required creds0 r maxRedirects_default st2 of
                         (Inl e, st3) \<Rightarrow> (False, st3)
                       | (Inr u, st3) \<Rightarrow> getOutlookTokens env_interaction_required creds0 True st3))
      = getOutlookTokens env_interaction_required creds0 True
       (flow0\<lparr>requests := [GET ?auth, GET login_reentry_url],
              analysed := [resp_interaction_required], reentries := 1,
              lastResponse := Some resp_interaction_required\<rparr>)"
    by (simp add: http_def followRedirects_def maxRedirects_default_def eval_nat_numeral
        env_interaction_required_def env_of_def analyze_final_def flow0_def)
  show ?thesis
    using hops loc nocode
      getOutlookTokens_missing_code [OF hops loc sp nocode, of creds0 False]
    by (simp add: absent_def flow0_def reentry [unfolded flow0_def, simplified]
        retried [unfolded flow0_def, simplified])
qed

text \<open>
  The acquisition is not run again when the re-entry fails: where the call to the login
  endpoint throws, and where the handler does not know the page that answers it, the
  result is \<open>false\<close> after two calls.
\<close>

lemma getOutlookTokens_reentry_fails:
  "getOutlookTokens env_reentry_fails creds0 False flow0
     = (False, flow0\<lparr>requests := [GET (authUrl env_reentry_fails 0), GET login_reentry_url],
                      reentries := 1\<rparr>)
   \<and> getOutlookTokens env_reentry_unknown creds0 False flow0
     = (False, flow0\<lparr>requests := [GET (authUrl env_reentry_unknown 0), GET login_reentry_url],
                      analysed := [resp_no_content], reentries := 1\<rparr>)"
proof -
  have a: "getOutlookTokens env_reentry_fails creds0 False flow0
     = (False, flow0\<lparr>requests := [GET (authUrl env_reentry_fails 0), GET login_reentry_url],
                      reentries := 1\<rparr>)"
    by (subst getOutlookTokens.simps)
       (simp add: eval_nat_numeral env_reentry_fails_def env_of_def http_def
          resp_interaction_required_def flow0_def fragment_params_def code_of_def absent_def
          login_reentry_url_def)
  have b: "getOutlookTokens env_reentry_unknown creds0 False flow0
     = (False, flow0\<lparr>requests := [GET (authUrl env_reentry_unknown 0), GET login_reentry_url],
                      analysed := [resp_no_content], reentries := 1\<rparr>)"
    by (subst getOutlookTokens.simps)
       (simp add: eval_nat_numeral env_reentry_unknown_def env_of_def http_def
          resp_interaction_required_def flow0_def fragment_params_def code_of_def absent_def
          login_reentry_url_def followRedirects_def maxRedirects_default_def
          analyze_http_redirect_def resp_no_content_def)
  from a b show ?thesis by simp
qed

text \<open>
  C9 as stated fails: a final redirect whose fragment holds an empty \<open>code\<close> and no
  \<open>error\<close> ends the first attempt with \<open>false\<close> after one request, without a re-entry and
  without a retry; and the failure is the return value \<open>false\<close>, not an error.
\<close>

theorem getOutlookTokens_no_error_param_counterexample:
  "location resp_empty_code
     = Some ''https://outlook.live.com/mail/oauthRedirect.html#code=&state=abc''
   \<and> getOutlookTokens env_empty_code creds0 False flow0
       = (False, flow0\<lparr>requests := [GET (authUrl env_empty_code 0)]\<rparr>)
   \<and> reentries (snd (getOutlookTokens env_empty_code creds0 False flow0)) = 0"
proof -
  have ev: "getOutlookTokens env_empty_code creds0 False flow0
      = (False, flow0\<lparr>requests := [GET (authUrl env_empty_code 0)]\<rparr>)"
    by (subst getOutlookTokens.simps)
       (simp add: eval_nat_numeral env_empty_code_def env_of_def http_def
          resp_empty_code_def flow0_def fragment_params_def code_of_def absent_def)
  show ?thesis
    by (simp add: ev) (simp add: resp_empty_code_def flow0_def)
qed

subsection \<open>Characters\<close>

text \<open>The character tests, read as sets of characters and as arithmetic on code units.\<close>

lemma is_digit_iff: "is_digit c \<longleftrightarrow> c \<in> set ''0123456789''"
proof (cases c)
  case (Char b0 b1 b2 b3 b4 b5 b6 b7)
  show ?thesis unfolding Char
    by (cases b0; cases b1; cases b2; cases b3; cases b4; cases b5; cases b6; cases b7; simp)
qed

lemma is_space_iff:
  "is_space c \<longleftrightarrow>
     c \<in> {CHR 0x09, CHR 0x0A, CHR 0x0B, CHR 0x0C, CHR 0x0D, CHR '' '', CHR 0xA0}"
proof (cases c)
  case (Char b0 b1 b2 b3 b4 b5 b6 b7)
  show ?thesis unfolding Char
    by (cases b0; cases b1; cases b2; cases b3; cases b4; cases b5; cases b6; cases b7; simp)
qed

lemma is_letter_iff:
  "is_letter c \<longleftrightarrow> c \<in> set ''abcdefghijklmnopqrstuvwxyzABCDEFGHIJKLMNOPQRSTUVWXYZ''"
proof (cases c)
  case (Char b0 b1 b2 b3 b4 b5 b6 b7)
  show ?thesis unfolding Char
    by (cases b0; cases b1; cases b2; cases b3; cases b4; cases b5; cases b6; cases b7; simp)
qed

lemma canonicalize_code:
  "of_char (canonicalize c) =
     (let n = of_char c :: nat
      in if (97 \<le> n \<and> n \<le> 122) \<or> (224 \<le> n \<and> n \<le> 254 \<and> n \<noteq> 247) then n - 32 else n)"
proof (cases c)
  case (Char b0 b1 b2 b3 b4 b5 b6 b7)
  show ?thesis unfolding Char
    by (cases b0; cases b1; cases b2; cases b3; cases b4; cases b5; cases b6; cases b7; simp)
qed

lemma toLowerChar_code:
  "of_char (toLowerChar c) =
     (let n = of_char c :: nat
      in if (65 \<le> n \<and> n \<le> 90) \<or> (192 \<le> n \<and> n \<le> 222 \<and> n \<noteq> 215) then n + 32 else n)"
proof (cases c)
  case (Char b0 b1 b2 b3 b4 b5 b6 b7)
  show ?thesis unfolding Char
    by (cases b0; cases b1; cases b2; cases b3; cases b4; cases b5; cases b6; cases b7; simp)
qed

subsection \<open>OTP extraction\<close>

lemmas otp_eval =
  extractOTPFromPreview_def patterns_def labeled_patterns_def fallback_patterns_def
  multi_language_patterns_def cleanText_def trim_def collapse_ws_def replace_lf_def
  lit_def ws0_def ws1_def digits48_def lazy_any_def colon_ws1_def
  bare_def search_def counts_def
  prev_after_def word_opt_def head_opt_def unit_matches_def is_word_def eval_nat_numeral

text \<open>
  The patterns are tried in the order of the list; the labeled patterns of the first
  group come before every fallback.
\<close>

lemma try_patterns_append:
  "try_patterns (ps @ qs) t =
     (case try_patterns ps t of Some code \<Rightarrow> Some code | None \<Rightarrow> try_patterns qs t)"
  by (induction ps) (auto split: option.splits)

lemma extractOTPFromPreview_labeled_first:
  "extractOTPFromPreview preview =
     (if preview = [] then None
      else (case try_patterns labeled_patterns (cleanText preview) of
              Some code \<Rightarrow> Some code
            | None \<Rightarrow> try_patterns (fallback_patterns @ multi_language_patterns)
                        (cleanText preview)))"
  by (simp add: extractOTPFromPreview_def patterns_def try_patterns_append)

subsection \<open>Candidate emails\<close>

lemma includes_str_sublist: "includes_str s p \<longleftrightarrow> sublist p s"
  by (induction s) (auto simp: sublist_Cons_right)

lemma includes_str_trans: "includes_str s f \<Longrightarrow> includes_str f k \<Longrightarrow> includes_str s k"
  unfolding includes_str_sublist by (rule sublist_order.order_trans)

lemma hasSecuritySubject_keyword: "hasSecuritySubject conv = subject_has_keyword conv"
  by (auto simp: hasSecuritySubject_def subject_has_keyword_def security_keywords_def Let_def)

lemma isMicrosoft_provider: "isMicrosoft conv = sender_is_provider conv"
  by (auto simp: isMicrosoft_def sender_is_provider_def provider_keywords_def Let_def)

lemma subjectMatches_default: "subjectMatches default_subjectFilters conv = subject_has_keyword conv"
  by (auto simp: subjectMatches_def subject_has_keyword_def security_keywords_def
      default_subjectFilters_def Let_def toLowerCase_def)

lemma default_filter_microsoft:
  "f \<in> set default_senderFilters \<Longrightarrow> includes_str (toLowerCase f) ''microsoft''"
  by (auto simp: default_senderFilters_def toLowerCase_def)

lemma senderMatches_default:
  assumes "senderMatches default_senderFilters conv"
  shows "sender_is_provider conv"
proof -
  let ?s = "toLowerCase (or_empty (senderAddress conv))"
  from assms have "(\<exists>f \<in> set default_senderFilters. includes_str ?s (toLowerCase f))
      \<or> includes_str ?s ''microsoft''"
    by (simp add: senderMatches_def Let_def list_ex_iff)
  then have "includes_str ?s ''microsoft''"
    using default_filter_microsoft includes_str_trans by blast
  then show ?thesis
    by (simp add: sender_is_provider_def provider_keywords_def)
qed

lemma sorted_desc_sort_key:
  "sorted_wrt (\<lambda>a b. delivery_or_epoch b \<le> delivery_or_epoch a)
     (sort_key (\<lambda>conv. - delivery_or_epoch conv) xs)"
proof -
  have "sorted (map (\<lambda>conv. - delivery_or_epoch conv) (sort_key (\<lambda>conv. - delivery_or_epoch conv) xs))"
    by (rule sorted_sort_key)
  then show ?thesis by (simp add: sorted_map)
qed

lemma dated_time: "dated conv \<Longrightarrow> time_of conv = Some (delivery_or_epoch conv)"
  by (simp add: dated_def time_of_def delivery_or_epoch_def split: delivery.splits)

lemma mset_insert_by: "mset (insert_by f x xs) = add_mset x (mset xs)"
  by (induction xs) simp_all

lemma mset_foldl_insert_by:
  "mset (foldl (\<lambda>sorted x. insert_by f x sorted) acc xs) = mset acc + mset xs"
  by (induction xs arbitrary: acc) (simp_all add: mset_insert_by)

lemma insertion_engine_permutes: "mset (insertion_engine f xs) = mset xs"
  by (simp add: insertion_engine_def mset_foldl_insert_by)

lemma set_recentEmails:
  assumes "\<forall>f xs. mset (engine f xs) = mset xs"
  shows "set (recentEmails engine now maxAge senderFilters subjectFilters conversations)
           = {conv \<in> set conversations.
                senderMatches senderFilters conv \<and> subjectMatches subjectFilters conv
                \<and> isRecent now maxAge conv}"
proof -
  have "set (engine f xs) = set xs" for f xs
    using assms mset_eq_setD by blast
  then show ?thesis
    by (auto simp: recentEmails_def Let_def)
qed

text \<open>
  C8 (as amended). On the snapshot path a candidate is accepted only if its subject
  contains a security-code keyword, whatever the case, and its sender address contains a
  provider keyword, and the accepted candidates are sorted by delivery time, most recent
  first. On the conversation-search path the accepted candidates are exactly the
  conversations that pass the caller's sender and subject filters and the recency test
  with the caller's \<open>maxAge\<close>; with the default filters they satisfy the same two keyword
  conditions; a candidate that carries a delivery time lies within \<open>maxAge\<close> of now, none
  is accepted whose time cannot be read, and one without a delivery time passes. Where
  every accepted candidate is dated they are sorted by delivery time, most recent first;
  otherwise their order is the engine's, which is assumed to permute the list.
\<close>

theorem candidate_filtering:
  assumes "\<forall>f xs. mset (engine f xs) = mset xs"
  shows "(\<forall>conv \<in> set (securityEmails now conversations).
            conv \<in> set conversations \<and> subject_has_keyword conv \<and> sender_is_provider conv)
       \<and> sorted_wrt (\<lambda>a b. delivery_or_epoch b \<le> delivery_or_epoch a)
            (securityEmails now conversations)
       \<and> set (recentEmails engine now maxAge senderFilters subjectFilters conversations)
           = {conv \<in> set conversations.
                senderMatches senderFilters conv \<and> subjectMatches subjectFilters conv
                \<and> isRecent now maxAge conv}
       \<and> (\<forall>conv \<in> set (recentEmails engine now maxAge default_senderFilters
                            default_subjectFilters conversations).
            subject_has_keyword conv \<and> sender_is_provider conv
            \<and> LastDeliveryTime conv \<noteq> BadTime
            \<and> (\<forall>t. LastDeliveryTime conv = At t \<longrightarrow> now - t \<le> maxAge))
       \<and> (list_all dated
             (recentEmails engine now maxAge senderFilters subjectFilters conversations) \<longrightarrow>
            sorted_wrt (\<lambda>a b. delivery_or_epoch b \<le> delivery_or_epoch a)
              (recentEmails engine now maxAge senderFilters subjectFilters conversations))"
proof (intro conjI ballI impI allI)
  fix conv assume "conv \<in> set (securityEmails now conversations)"
  then show "conv \<in> set conversations" "subject_has_keyword conv" "sender_is_provider conv"
    by (simp_all add: securityEmails_def hasSecuritySubject_keyword isMicrosoft_provider)
next
  show "sorted_wrt (\<lambda>a b. delivery_or_epoch b \<le> delivery_or_epoch a)
        (securityEmails now conversations)"
    unfolding securityEmails_def by (rule sorted_desc_sort_key)
next
  show "set (recentEmails engine now maxAge senderFilters subjectFilters conversations)
           = {conv \<in> set conversations.
                senderMatches senderFilters conv \<and> subjectMatches subjectFilters conv
                \<and> isRecent now maxAge conv}"
    by (rule set_recentEmails [OF assms])
next
  fix conv
  assume c: "conv \<in> set (recentEmails engine now maxAge default_senderFilters
                            default_subjectFilters conversations)"
  then have m: "senderMatches default_senderFilters conv"
    "subjectMatches default_subjectFilters conv" "isRecent now maxAge conv"
    unfolding set_recentEmails [OF assms] by simp_all
  show "subject_has_keyword conv" using m(2) by (simp add: subjectMatches_default)
  show "sender_is_provider conv" using m(1) by (rule senderMatches_default)
  show "LastDeliveryTime conv \<noteq> BadTime" using m(3) by (auto simp: isRecent_def)
  show "\<And>t. LastDeliveryTime conv = At t \<Longrightarrow> now - t \<le> maxAge"
    using m(3) by (simp add: isRecent_def)
next
  let ?accepted = "filter (\<lambda>conv. senderMatches senderFilters conv
      \<and> subjectMatches subjectFilters conv \<and> isRecent now maxAge conv) conversations"
  assume d: "list_all dated
    (recentEmails engine now maxAge senderFilters subjectFilters conversations)"
  have s: "set (recentEmails engine now maxAge senderFilters subjectFilters conversations)
      = set ?accepted"
    unfolding set_recentEmails [OF assms] by auto
  from d have "list_all dated ?accepted"
    unfolding list_all_iff s .
  then have "recentEmails engine now maxAge senderFilters subjectFilters conversations
      = sort_key (\<lambda>conv. - delivery_or_epoch conv) ?accepted"
    by (simp add: recentEmails_def Let_def)
  then show "sorted_wrt (\<lambda>a b. delivery_or_epoch b \<le> delivery_or_epoch a)
              (recentEmails engine now maxAge senderFilters subjectFilters conversations)"
    by (simp add: sorted_desc_sort_key)
qed

lemmas conv_eval =
  conv_fresh_def conv_older_def conv_stale_def conv_digest_def conv_no_time_def now0_def
  provider_address_def securityEmails_def recentEmails_def hasSecuritySubject_def
  isMicrosoft_def isRecent_def senderMatches_def subjectMatches_def or_empty_def
  toLowerCase_def delivery_or_epoch_def default_senderFilters_def default_subjectFilters_def
  dated_def time_of_def compare_delivery_def insertion_engine_def Let_def

theorem candidate_filtering_witness:
  "(\<forall>f (xs :: conversation list). mset (insertion_engine f xs) = mset xs)
   \<and> securityEmails now0 [conv_older, conv_digest, conv_fresh, conv_stale]
       = [conv_fresh, conv_older, conv_stale]
   \<and> recentEmails insertion_engine now0 300000 default_senderFilters default_subjectFilters
        [conv_older, conv_digest, conv_fresh, conv_stale]
       = [conv_fresh, conv_older]
   \<and> list_all dated [conv_fresh, conv_older]
   \<and> subject_has_keyword conv_fresh \<and> sender_is_provider conv_fresh
   \<and> LastDeliveryTime conv_fresh = At (now0 - 60000)"
proof -
  have a: "securityEmails now0 [conv_older, conv_digest, conv_fresh, conv_stale]
     = [conv_fresh, conv_older, conv_stale]"
    by (simp add: conv_eval)
  have b: "recentEmails insertion_engine now0 300000 default_senderFilters
        default_subjectFilters [conv_older, conv_digest, conv_fresh, conv_stale]
     = [conv_fresh, conv_older]"
    by (simp add: conv_eval)
  have d: "list_all dated [conv_fresh, conv_older]"
    by (simp add: conv_eval)
  have p: "\<forall>f (xs :: conversation list). mset (insertion_engine f xs) = mset xs"
    by (simp add: insertion_engine_permutes)
  show ?thesis
    using a b d p
      candidate_filtering [OF p, of now0 "[conv_older, conv_digest, conv_fresh, conv_stale]"
        300000 default_senderFilters default_subjectFilters]
    by (simp add: conv_fresh_def)
qed

text \<open>
  C8 as stated fails: a conversation that carries no delivery time is accepted, whatever
  \<open>maxAge\<close> the caller passes, and it keeps its place ahead of a dated one, so that the
  code is taken from it.
\<close>

theorem candidate_without_time_counterexample:
  "recentEmails insertion_engine now0 300000 default_senderFilters default_subjectFilters
      [conv_no_time, conv_fresh]
     = [conv_no_time, conv_fresh]
   \<and> LastDeliveryTime conv_no_time = NoTime
   \<and> LastDeliveryTime conv_fresh = At (now0 - 60000)
   \<and> findMicrosoftOTP insertion_engine now0 300000 default_senderFilters
        default_subjectFilters None True (Some [conv_no_time, conv_fresh])
       = Found ''073215'' conv_no_time conversation_api"
proof -
  have a: "recentEmails insertion_engine now0 300000 default_senderFilters
      default_subjectFilters [conv_no_time, conv_fresh] = [conv_no_time, conv_fresh]"
    by (simp add: conv_eval)
  have b: "extractOTPFromPreview ''Use code 073215 to verify'' = Some ''073215''"
    by (simp add: otp_eval)
  have c: "findMicrosoftOTP insertion_engine now0 300000 default_senderFilters
        default_subjectFilters None True (Some [conv_no_time, conv_fresh])
       = Found ''073215'' conv_no_time conversation_api"
    by (simp add: findMicrosoftOTP_def extractOTPFromStartupData_def a)
       (simp add: conv_no_time_def or_empty_def b)
  show ?thesis
    using a c by (simp add: conv_no_time_def conv_fresh_def)
qed

text \<open>
  The snapshot path applies its own window of ten minutes: with \<open>maxAge\<close> at five
  minutes, a code from a mail eight minutes old is returned.
\<close>

lemma snapshot_ignores_caller_maxAge:
  "findMicrosoftOTP engine now0 300000 default_senderFilters default_subjectFilters
      (Some [conv_stale]) True (Some [conv_stale])
     = Found ''222222'' conv_stale startup_data_direct
   \<and> LastDeliveryTime conv_stale = At (now0 - 480000)"
proof -
  have a: "securityEmails now0 [conv_stale] = [conv_stale]"
    by (simp add: conv_eval)
  have b: "extractOTPFromPreview ''Security code: 222222'' = Some ''222222''"
    by (simp add: otp_eval)
  show ?thesis
    by (simp add: findMicrosoftOTP_def extractOTPFromStartupData_def a)
       (simp add: conv_stale_def or_empty_def b)
qed

text \<open>The three examples of the specification.\<close>

lemma extractOTPFromPreview_security_code:
  "extractOTPFromPreview ''Your Microsoft account security code is: 482913'' = Some ''482913''"
  by (simp add: otp_eval)

lemma extractOTPFromPreview_no_code:
  "extractOTPFromPreview ''no codes here'' = None"
  by (simp add: otp_eval)

lemma extractOTPFromPreview_use_code:
  "extractOTPFromPreview ''Use code 073215 to verify'' = Some ''073215''"
  by (simp add: otp_eval)

text \<open>
  C7. The labeled pattern \<open>Kode:\<close> is one of the patterns and matches the text with the
  code 1234, yet the function returns 567890: the bare six-digit pattern stands before
  the multi-language labeled patterns in the list and matches first.
\<close>

theorem extractOTPFromPreview_kode_shadowed:
  "[lit ''Kode:'', ws0, digits48] \<in> set patterns
   \<and> search [lit ''Kode:'', ws0, digits48] (cleanText ''Kode: 1234 ref 567890'')
       = Some (Some ''1234'')
   \<and> extractOTPFromPreview ''Kode: 1234 ref 567890'' = Some ''567890''"
proof -
  have a: "[lit ''Kode:'', ws0, digits48] \<in> set patterns"
    by (simp add: patterns_def multi_language_patterns_def)
  have b: "search [lit ''Kode:'', ws0, digits48] (cleanText ''Kode: 1234 ref 567890'')
       = Some (Some ''1234'')"
    by (simp add: otp_eval)
  have c: "extractOTPFromPreview ''Kode: 1234 ref 567890'' = Some ''567890''"
    by (simp add: otp_eval)
  from a b c show ?thesis by simp
qed

subsection \<open>PKCE\<close>

lemma sextet_bounds:
  fixes a b c :: byte
  shows "unat a div 4 < 64" "(unat a mod 4) * 16 + unat b div 16 < 64"
    "(unat b mod 16) * 4 + unat c div 64 < 64" "unat c mod 64 < 64"
    "(unat a mod 4) * 16 < 64" "(unat b mod 16) * 4 < 64"
proof -
  have a: "unat a < 256" using unsigned_less [of a, where ?'a = nat] by simp
  have b: "unat b < 256" using unsigned_less [of b, where ?'a = nat] by simp
  have c: "unat c < 256" using unsigned_less [of c, where ?'a = nat] by simp
  have a4: "unat a mod 4 < 4" and b16: "unat b mod 16 < 16" by simp_all
  have bd: "unat b div 16 < 16" using b by simp
  have cd: "unat c div 64 < 4" using c by simp
  show "unat a div 4 < 64" using a by simp
  show "(unat a mod 4) * 16 + unat b div 16 < 64" using a4 bd by linarith
  show "(unat b mod 16) * 4 + unat c div 64 < 64" using b16 cd by linarith
  show "unat c mod 64 < 64" by simp
  show "(unat a mod 4) * 16 < 64" using a4 by linarith
  show "(unat b mod 16) * 4 < 64" using b16 by linarith
qed

lemma alphabet_table:
  "list_all (\<lambda>n. url_of_std (std_alphabet ! n) = url_alphabet ! n \<and> url_alphabet ! n \<noteq> CHR ''=''
      \<and> url_alphabet ! n \<in> set url_alphabet) [0 ..< 64]"
  by code_simp

lemma alphabet_swap:
  assumes "n < 64"
  shows "url_of_std (std_alphabet ! n) = url_alphabet ! n" "url_alphabet ! n \<noteq> CHR ''=''"
    "url_alphabet ! n \<in> set url_alphabet"
  using alphabet_table assms by (auto simp: list_all_iff)


lemma base64UrlEncode_is_base64url:
  "base64UrlEncode buffer = base64url_nopad buffer"
proof -
  have "filter (\<lambda>x. x \<noteq> CHR ''='') (map url_of_std (base64_with std_alphabet True buffer))
          = base64_with url_alphabet False buffer"
  proof (induction std_alphabet True buffer rule: base64_with.induct)
    case 1
    then show ?case by simp
  next
    case (2 a)
    then show ?case
      by (simp add: alphabet_swap sextet_bounds) (simp add: url_of_std_def)
  next
    case (3 a b)
    then show ?case
      by (simp add: alphabet_swap sextet_bounds) (simp add: url_of_std_def)
  next
    case (4 a b c rest)
    then show ?case
      by (simp add: alphabet_swap sextet_bounds)
  qed
  moreover have "(\<lambda>x. if x = CHR ''/'' then CHR ''_'' else x)
          \<circ> (\<lambda>x. if x = CHR ''+'' then CHR ''-'' else x) = url_of_std"
    by (auto simp: url_of_std_def Let_def fun_eq_iff)
  ultimately show ?thesis
    by (simp add: base64UrlEncode_def base64url_nopad_def base64_def)
qed

lemma length_base64url_nopad:
  "length (base64_with al False bs) = (4 * length bs + 2) div 3"
  by (induction al False bs rule: base64_with.induct) simp_all

lemma set_base64url_nopad: "set (base64url_nopad bs) \<subseteq> set url_alphabet"
  unfolding base64url_nopad_def
  by (induction url_alphabet False bs rule: base64_with.induct)
     (simp_all add: alphabet_swap sextet_bounds)

lemma length_rounds: "length st = 8 \<Longrightarrow> length (rounds ks ws st) = 8"
proof (induction ks ws st rule: rounds.induct)
  case (2 k ks ws a b c d e f g h)
  then show ?case by (simp add: Let_def)
qed simp_all

lemma length_blocks: "length st = 8 \<Longrightarrow> length (blocks st ws) = 8"
proof (induction st ws rule: blocks.induct)
  case (1 st ws)
  show ?case
  proof (cases "length ws < 16")
    case True
    then show ?thesis using 1 by (simp add: blocks.simps)
  next
    case False
    have "length (compress st (take 16 ws)) = 8"
      using 1(2) by (simp add: compress_def length_rounds)
    with 1 False show ?thesis by (subst blocks.simps) simp
  qed
qed

lemma length_H256: "length H256 = 8"
  by code_simp

lemma length_sha256: "length (sha256 m) = 32"
proof -
  have "length (blocks H256 (be_words (pad256 m))) = 8"
    by (rule length_blocks) (rule length_H256)
  then show ?thesis
    by (simp add: sha256_def length_concat word_bytes_def comp_def sum_list_triv)
qed

lemma createNewGuid_source: "snd (createNewGuid g) = (\<lambda>i. g (16 + i))"
  by (simp add: createNewGuid_def randomBytes_def Let_def)

lemma verifier_source:
  "fst (randomBytes 32 (snd (createNewGuid (snd (createNewGuid (snd (createNewGuid g)))))))
     = map (\<lambda>i. g (48 + i)) [0 ..< 32]"
  by (simp add: createNewGuid_source randomBytes_def add.assoc [symmetric])

text \<open>
  C5. The code verifier is the unpadded base64url encoding of thirty-two bytes of the
  random generator (those that follow the forty-eight of the three identifiers), hence
  forty-three characters of the base64url alphabet; the code challenge put into the query
  is the unpadded base64url encoding of the SHA-256 hash of the verifier string, with the
  method \<open>S256\<close>.
\<close>

theorem pkce_challenge:
  "codeVerifier (createMicrosoftAuthUrl config random)
     = base64url_nopad (map (\<lambda>i. random (48 + i)) [0 ..< 32])
   \<and> length (map (\<lambda>i. random (48 + i)) [0 ..< 32]) = 32
   \<and> length (codeVerifier (createMicrosoftAuthUrl config random)) = 43
   \<and> set (codeVerifier (createMicrosoftAuthUrl config random)) \<subseteq> set url_alphabet
   \<and> map_of (paramsObject (createMicrosoftAuthUrl config random)) ''code_challenge''
       = Some (base64url_nopad
                 (sha256 (utf8 (codeVerifier (createMicrosoftAuthUrl config random)))))
   \<and> length (base64url_nopad
                (sha256 (utf8 (codeVerifier (createMicrosoftAuthUrl config random))))) = 43
   \<and> map_of (paramsObject (createMicrosoftAuthUrl config random)) ''code_challenge_method''
       = Some ''S256''"
proof -
  let ?bytes = "map (\<lambda>i. random (48 + i)) [0 ..< 32]"
  have v: "codeVerifier (createMicrosoftAuthUrl config random) = base64url_nopad ?bytes"
    by (simp add: createMicrosoftAuthUrl_def Let_def split_beta base64UrlEncode_is_base64url
        verifier_source)
  have l: "length (base64url_nopad ?bytes) = 43"
    by (simp add: base64url_nopad_def length_base64url_nopad)
  have c: "map_of (paramsObject (createMicrosoftAuthUrl config random)) ''code_challenge''
           = Some (base64url_nopad (sha256 (utf8 (base64url_nopad ?bytes))))"
    by (simp add: createMicrosoftAuthUrl_def Let_def split_beta base64UrlEncode_is_base64url
        verifier_source)
  have lc: "length (base64url_nopad (sha256 (utf8 (base64url_nopad ?bytes)))) = 43"
    by (simp add: base64url_nopad_def length_base64url_nopad length_sha256)
  have m: "map_of (paramsObject (createMicrosoftAuthUrl config random)) ''code_challenge_method''
           = Some ''S256''"
    by (simp add: createMicrosoftAuthUrl_def Let_def split_beta)
  show ?thesis
    unfolding v using l c lc m set_base64url_nopad by simp
qed

text \<open>The example of RFC 7636, appendix B: its verifier and its challenge.\<close>

lemma rfc_verifier: "base64url_nopad rfc_octets = ''dBjftJeZ4CVP-mB92K27uhbUJU1p1r_wW1gFWFOEjXk''"
  by code_simp

lemma rfc_challenge:
  "base64url_nopad (sha256 (utf8 ''dBjftJeZ4CVP-mB92K27uhbUJU1p1r_wW1gFWFOEjXk''))
     = ''E9Melhoa2OwvFrEMTJguCHaoeK1t8URWbuGJSstw-cM''"
  by code_simp

lemma random_rfc_verifier_bytes: "map (\<lambda>i. random_rfc (48 + i)) [0 ..< 32] = rfc_octets"
  by code_simp

theorem pkce_challenge_witness:
  "map (\<lambda>i. random_rfc (48 + i)) [0 ..< 32] = rfc_octets
   \<and> codeVerifier (createMicrosoftAuthUrl msal_config random_rfc)
       = ''dBjftJeZ4CVP-mB92K27uhbUJU1p1r_wW1gFWFOEjXk''
   \<and> length (codeVerifier (createMicrosoftAuthUrl msal_config random_rfc)) = 43
   \<and> map_of (paramsObject (createMicrosoftAuthUrl msal_config random_rfc)) ''code_challenge''
       = Some ''E9Melhoa2OwvFrEMTJguCHaoeK1t8URWbuGJSstw-cM''
   \<and> map_of (paramsObject (createMicrosoftAuthUrl msal_config random_rfc))
        ''code_challenge_method'' = Some ''S256''"
  using pkce_challenge [of msal_config random_rfc] rfc_verifier rfc_challenge
  by (simp add: random_rfc_verifier_bytes)

end
